theory Spec2Isabelle
  imports Complex_Main "HOL-Library.Log_Nat" "HOL-Library.Multiset"
begin

section \<open>Python values\<close>

text \<open>
  The statistics of \<^verbatim>\<open>dashboard()\<close> in \<^verbatim>\<open>app.py\<close> are computed from the rows of the
  tables \<^verbatim>\<open>tasks\<close> and \<^verbatim>\<open>focus_sessions\<close>. A row is a Python dict from column names
  to decoded JSON values; the values that a column read here can hold are null,
  booleans, integers and text.
\<close>

datatype pyval = PNone | PBool bool | PInt int | PStr string

datatype pyexc =
  TypeError | AttributeError | KeyError | ValueError | OverflowError | ZeroDivisionError

type_synonym pydict = "string \<rightharpoonup> pyval"

text \<open>Truth value testing, as \<^verbatim>\<open>if x:\<close> and \<^verbatim>\<open>not x\<close> do it.\<close>

fun truthy :: "pyval \<Rightarrow> bool" where
  "truthy PNone = False"
| "truthy (PBool b) = b"
| "truthy (PInt n) = (n \<noteq> 0)"
| "truthy (PStr s) = (s \<noteq> [])"

text \<open>\<^verbatim>\<open>d.get(k)\<close>, \<^verbatim>\<open>d.get(k, default)\<close> and \<^verbatim>\<open>d[k]\<close>.\<close>

definition dict_get :: "pydict \<Rightarrow> string \<Rightarrow> pyval" where
  "dict_get d k = (case d k of None \<Rightarrow> PNone | Some v \<Rightarrow> v)"

definition dict_get_default :: "pydict \<Rightarrow> string \<Rightarrow> pyval \<Rightarrow> pyval" where
  "dict_get_default d k dflt = (case d k of None \<Rightarrow> dflt | Some v \<Rightarrow> v)"

definition dict_item :: "pydict \<Rightarrow> string \<Rightarrow> pyexc + pyval" where
  "dict_item d k = (case d k of None \<Rightarrow> Inl KeyError | Some v \<Rightarrow> Inr v)"

text \<open>Sequencing of steps that may raise: the first exception ends the computation.\<close>

definition bind_exc :: "pyexc + 'a \<Rightarrow> ('a \<Rightarrow> pyexc + 'b) \<Rightarrow> pyexc + 'b" where
  "bind_exc r f = (case r of Inl e \<Rightarrow> Inl e | Inr v \<Rightarrow> f v)"

text \<open>
  \<^verbatim>\<open>acc += v\<close> for an integer accumulator: an integer is added, a boolean counts as
  0 or 1, and \<^verbatim>\<open>None\<close> or a string raises TypeError.
\<close>

fun int_iadd :: "int \<Rightarrow> pyval \<Rightarrow> pyexc + int" where
  "int_iadd acc (PInt n) = Inr (acc + n)"
| "int_iadd acc (PBool b) = Inr (acc + (if b then 1 else 0))"
| "int_iadd acc PNone = Inl TypeError"
| "int_iadd acc (PStr s) = Inl TypeError"

text \<open>\<^verbatim>\<open>str(v)\<close>, as an f-string formats a value.\<close>

definition digit_char :: "nat \<Rightarrow> char" where
  "digit_char d = char_of (48 + d)"

function str_nat :: "nat \<Rightarrow> string" where
  "str_nat n = (if n < 10 then [digit_char n] else str_nat (n div 10) @ [digit_char (n mod 10)])"
  by pat_completeness auto
termination
  by (relation "measure id") auto

declare str_nat.simps [simp del]

fun py_str :: "pyval \<Rightarrow> string" where
  "py_str PNone = ''None''"
| "py_str (PBool b) = (if b then ''True'' else ''False'')"
| "py_str (PInt i) = (if i < 0 then CHR ''-'' # str_nat (nat (- i)) else str_nat (nat i))"
| "py_str (PStr s) = s"

section \<open>Python floats\<close>

text \<open>
  A Python float is an IEEE 754 binary64 number. Its finite values are modelled by the
  rationals they denote (the sign of zero is not kept), and every operation rounds the
  exact result to the nearest float, ties to the even significand: 53 significant bits,
  exponents down to that of the subnormals (\<open>2 ^ - 1074\<close>), and infinity from
  \<open>2 ^ 1024\<close> on.
\<close>

datatype pyfloat = Finite rat | PosInf | NegInf | NaN

definition round_half_even :: "rat \<Rightarrow> int" where
  "round_half_even x =
     (let f = \<lfloor>x\<rfloor>; d = x - of_int f
      in if d < 1 / 2 then f else if 1 / 2 < d then f + 1 else if even f then f else f + 1)"

definition pow2 :: "int \<Rightarrow> rat" where
  "pow2 e = (if 0 \<le> e then 2 ^ nat e else 1 / 2 ^ nat (- e))"

text \<open>The exponent \<open>e\<close> with \<open>2 ^ e \<le> x < 2 ^ (e + 1)\<close>, for \<open>x > 0\<close>.\<close>

definition ilog2 :: "rat \<Rightarrow> int" where
  "ilog2 x = (if 1 \<le> x then bitlen \<lfloor>x\<rfloor> - 1 else - bitlen (\<lceil>1 / x\<rceil> - 1))"

definition fl_round :: "rat \<Rightarrow> pyfloat" where
  "fl_round x =
     (if x = 0 then Finite 0
      else let e = max (ilog2 \<bar>x\<bar> - 52) (- 1074);
               m = round_half_even (\<bar>x\<bar> / pow2 e);
               r = of_int m * pow2 e
           in if pow2 1024 \<le> r then (if 0 < x then PosInf else NegInf)
              else Finite (sgn x * r))"

text \<open>\<^verbatim>\<open>sys.float_info.max\<close>.\<close>

definition float_max :: rat where
  "float_max = (2 ^ 53 - 1) * 2 ^ 971"

fun fneg :: "pyfloat \<Rightarrow> pyfloat" where
  "fneg (Finite a) = Finite (- a)"
| "fneg PosInf = NegInf"
| "fneg NegInf = PosInf"
| "fneg NaN = NaN"

text \<open>\<^verbatim>\<open>x * y\<close> and \<^verbatim>\<open>x + y\<close> on floats; an integer operand is converted first.\<close>

fun fmul :: "pyfloat \<Rightarrow> pyfloat \<Rightarrow> pyfloat" where
  "fmul (Finite a) (Finite b) = fl_round (a * b)"
| "fmul NaN y = NaN"
| "fmul x NaN = NaN"
| "fmul (Finite a) y = (if a = 0 then NaN else if 0 < a then y else fneg y)"
| "fmul x (Finite b) = (if b = 0 then NaN else if 0 < b then x else fneg x)"
| "fmul x y = (if x = y then PosInf else NegInf)"

fun fadd :: "pyfloat \<Rightarrow> pyfloat \<Rightarrow> pyfloat" where
  "fadd (Finite a) (Finite b) = fl_round (a + b)"
| "fadd NaN y = NaN"
| "fadd x NaN = NaN"
| "fadd (Finite a) y = y"
| "fadd x (Finite b) = x"
| "fadd x y = (if x = y then x else NaN)"

text \<open>\<^verbatim>\<open>x < y\<close> on floats: every comparison with NaN is false.\<close>

fun flt :: "pyfloat \<Rightarrow> pyfloat \<Rightarrow> bool" where
  "flt (Finite a) (Finite b) = (a < b)"
| "flt NaN y = False"
| "flt x NaN = False"
| "flt x PosInf = (x \<noteq> PosInf)"
| "flt NegInf y = (y \<noteq> NegInf)"
| "flt x y = False"

text \<open>
  \<^verbatim>\<open>min(x, y)\<close>: the first argument is kept unless the second is smaller.
\<close>

definition py_min :: "pyfloat \<Rightarrow> pyfloat \<Rightarrow> pyfloat" where
  "py_min x y = (if flt y x then y else x)"

text \<open>
  \<^verbatim>\<open>a / b\<close> on integers is the correctly rounded quotient; it raises
  ZeroDivisionError for \<^verbatim>\<open>b == 0\<close> and OverflowError when the quotient is beyond the
  floats.
\<close>

definition int_truediv :: "int \<Rightarrow> int \<Rightarrow> pyexc + pyfloat" where
  "int_truediv a b =
     (if b = 0 then Inl ZeroDivisionError
      else case fl_round (of_int a / of_int b) of
             Finite q \<Rightarrow> Inr (Finite q)
           | _ \<Rightarrow> Inl OverflowError)"

text \<open>
  \<^verbatim>\<open>round(x)\<close>: the nearest integer, ties to even; infinity raises OverflowError and
  NaN raises ValueError.
\<close>

fun py_round :: "pyfloat \<Rightarrow> pyexc + int" where
  "py_round (Finite a) = Inr (round_half_even a)"
| "py_round NaN = Inl ValueError"
| "py_round x = Inl OverflowError"

text \<open>
  \<^verbatim>\<open>round(x, 1)\<close>: the float nearest to the decimal with one fractional digit that is
  nearest to the exact value of \<^verbatim>\<open>x\<close> (ties to even); infinities and NaN round to
  themselves, and a result beyond the floats raises OverflowError.
\<close>

fun py_round1 :: "pyfloat \<Rightarrow> pyexc + pyfloat" where
  "py_round1 (Finite a) =
     (case fl_round (of_int (round_half_even (a * 10)) / 10) of
        Finite r \<Rightarrow> Inr (Finite r)
      | _ \<Rightarrow> Inl OverflowError)"
| "py_round1 x = Inr x"

text \<open>The float literals \<^verbatim>\<open>0.7\<close> and \<^verbatim>\<open>0.3\<close>.\<close>

definition float_0_7 :: pyfloat where
  "float_0_7 = fl_round (7 / 10)"

definition float_0_3 :: pyfloat where
  "float_0_3 = fl_round (3 / 10)"

section \<open>Datetimes\<close>

text \<open>
  A datetime is kept as the microseconds that its calendar fields count from
  0001-01-01T00:00:00 on its own clock, with its offset from UTC in microseconds, if
  it has one (an aware datetime), or none (a naive one). An aware datetime in UTC is
  written as that count alone. The type ranges from \<^verbatim>\<open>datetime.min\<close> to
  \<^verbatim>\<open>datetime.max\<close> (year 9999), and arithmetic that leaves the range raises
  OverflowError.
\<close>

record pydatetime =
  wall :: int
  utcoffset :: "int option"

definition DAY :: int where
  "DAY = 86400000000"

definition MAXDT :: int where
  "MAXDT = 3652059 * DAY"

definition in_range :: "int \<Rightarrow> bool" where
  "in_range t = (0 \<le> t \<and> t < MAXDT)"

text \<open>
  What the program takes from its platform: the parser \<^verbatim>\<open>datetime.fromisoformat\<close>,
  whose grammar depends on the version of Python, and the offset of the server's local
  time zone at a given local time, which \<^verbatim>\<open>astimezone\<close> gives to a naive datetime.
\<close>

record pyenv =
  env_fromisoformat :: "string \<Rightarrow> pyexc + pydatetime"
  env_utcoffset :: "int \<Rightarrow> int"

text \<open>\<^verbatim>\<open>dt.astimezone(timezone.utc)\<close>: the datetime minus its offset.\<close>

definition astimezone_utc :: "pyenv \<Rightarrow> pydatetime \<Rightarrow> pyexc + int" where
  "astimezone_utc env dt =
     (let off = (case utcoffset dt of Some d \<Rightarrow> d | None \<Rightarrow> env_utcoffset env (wall dt));
          u = wall dt - off
      in if in_range u then Inr u else Inl OverflowError)"

text \<open>\<^verbatim>\<open>dt - timedelta(days=n)\<close> and \<^verbatim>\<open>dt.weekday()\<close> (Monday is 0) in UTC.\<close>

definition minus_days :: "int \<Rightarrow> int \<Rightarrow> pyexc + int" where
  "minus_days t n = (let r = t - n * DAY in if in_range r then Inr r else Inl OverflowError)"

definition weekday :: "int \<Rightarrow> int" where
  "weekday t = (t div DAY) mod 7"

subsection \<open>The parser of ISO 8601 strings\<close>

text \<open>
  A model of \<^verbatim>\<open>datetime.fromisoformat\<close> on the strings that every version of CPython
  from 3.7 on reads alike: \<^verbatim>\<open>YYYY-MM-DD\<close>, alone or followed by one separator
  character and \<^verbatim>\<open>HH:MM:SS\<close>, then an optional fraction of 3 or 6 digits and an
  optional offset \<^verbatim>\<open>+HH:MM\<close> or \<^verbatim>\<open>-HH:MM\<close>. Every other string is rejected with
  ValueError here (later versions of CPython read some of them).
\<close>

definition digit_val :: "char \<Rightarrow> int option" where
  "digit_val c = (let n = (of_char c :: int) in if 48 \<le> n \<and> n \<le> 57 then Some (n - 48) else None)"

fun digits_acc :: "int \<Rightarrow> string \<Rightarrow> int option" where
  "digits_acc acc [] = Some acc"
| "digits_acc acc (c # cs) =
     (case digit_val c of None \<Rightarrow> None | Some d \<Rightarrow> digits_acc (10 * acc + d) cs)"

definition fixed_digits :: "nat \<Rightarrow> string \<Rightarrow> int option" where
  "fixed_digits n s = (if length s = n then digits_acc 0 s else None)"

definition is_leap :: "int \<Rightarrow> bool" where
  "is_leap y = (y mod 4 = 0 \<and> (y mod 100 \<noteq> 0 \<or> y mod 400 = 0))"

definition days_in_month :: "int \<Rightarrow> int \<Rightarrow> int" where
  "days_in_month y m =
     (if m = 2 then (if is_leap y then 29 else 28)
      else if m = 4 \<or> m = 6 \<or> m = 9 \<or> m = 11 then 30 else 31)"

definition days_before_year :: "int \<Rightarrow> int" where
  "days_before_year y = (let p = y - 1 in p * 365 + p div 4 - p div 100 + p div 400)"

text \<open>The days of a common year before each month, January first.\<close>

definition DAYS_BEFORE_MONTH :: "int list" where
  "DAYS_BEFORE_MONTH = [0, 31, 59, 90, 120, 151, 181, 212, 243, 273, 304, 334]"

definition days_before_month :: "int \<Rightarrow> int \<Rightarrow> int" where
  "days_before_month y m =
     DAYS_BEFORE_MONTH ! nat (m - 1) + (if 2 < m \<and> is_leap y then 1 else 0)"

definition ymd2ord :: "int \<Rightarrow> int \<Rightarrow> int \<Rightarrow> int" where
  "ymd2ord y m d = days_before_year y + days_before_month y m + d"

text \<open>
  The constructor \<^verbatim>\<open>datetime(...)\<close>, which checks the range of every field (so the
  month is one of the twelve where the table above is read).
\<close>

definition mk_datetime ::
  "int \<Rightarrow> int \<Rightarrow> int \<Rightarrow> int \<Rightarrow> int \<Rightarrow> int \<Rightarrow> int \<Rightarrow> int option \<Rightarrow> pyexc + pydatetime" where
  "mk_datetime y mo d h mi s us tz =
     (if 1 \<le> y \<and> y \<le> 9999 \<and> 1 \<le> mo \<and> mo \<le> 12 \<and> 1 \<le> d \<and> d \<le> days_in_month y mo
         \<and> 0 \<le> h \<and> h \<le> 23 \<and> 0 \<le> mi \<and> mi \<le> 59 \<and> 0 \<le> s \<and> s \<le> 59
         \<and> 0 \<le> us \<and> us \<le> 999999
      then Inr \<lparr>wall = (((ymd2ord y mo d - 1) * 24 + h) * 3600 + mi * 60 + s) * 1000000 + us,
                utcoffset = tz\<rparr>
      else Inl ValueError)"

definition parse_date :: "string \<Rightarrow> (int \<times> int \<times> int) option" where
  "parse_date s =
     (case (fixed_digits 4 (take 4 s), fixed_digits 2 (take 2 (drop 5 s)),
            fixed_digits 2 (take 2 (drop 8 s))) of
        (Some y, Some mo, Some d) \<Rightarrow>
          (if take 1 (drop 4 s) = ''-'' \<and> take 1 (drop 7 s) = ''-'' then Some (y, mo, d) else None)
      | _ \<Rightarrow> None)"

definition parse_hms :: "string \<Rightarrow> (int \<times> int \<times> int) option" where
  "parse_hms s =
     (case (fixed_digits 2 (take 2 s), fixed_digits 2 (take 2 (drop 3 s)),
            fixed_digits 2 (take 2 (drop 6 s))) of
        (Some h, Some mi, Some sec) \<Rightarrow>
          (if take 1 (drop 2 s) = '':'' \<and> take 1 (drop 5 s) = '':'' then Some (h, mi, sec) else None)
      | _ \<Rightarrow> None)"

text \<open>The fraction of a second: the microseconds and the rest of the string.\<close>

definition parse_fraction :: "string \<Rightarrow> (int \<times> string) option" where
  "parse_fraction s =
     (if take 1 s = ''.''
      then let ds = takeWhile (\<lambda>c. digit_val c \<noteq> None) (drop 1 s);
               rest = dropWhile (\<lambda>c. digit_val c \<noteq> None) (drop 1 s)
           in (case digits_acc 0 ds of
                 None \<Rightarrow> None
               | Some v \<Rightarrow> if length ds = 3 then Some (v * 1000, rest)
                            else if length ds = 6 then Some (v, rest) else None)
      else Some (0, s))"

text \<open>The offset, in microseconds: none for the empty string.\<close>

definition parse_offset :: "string \<Rightarrow> int option option" where
  "parse_offset s =
     (if s = [] then Some None
      else case (fixed_digits 2 (take 2 (drop 1 s)), fixed_digits 2 (drop 4 s)) of
             (Some h, Some mi) \<Rightarrow>
               (if (take 1 s = ''+'' \<or> take 1 s = ''-'') \<and> take 1 (drop 3 s) = '':''
                   \<and> h \<le> 23 \<and> mi \<le> 59
                then Some (Some ((if take 1 s = ''-'' then - 1 else 1)
                                 * (h * 60 + mi) * 60000000))
                else None)
           | _ \<Rightarrow> None)"

definition fromisoformat :: "string \<Rightarrow> pyexc + pydatetime" where
  "fromisoformat s =
     (if length s < 10 then Inl ValueError
      else case parse_date (take 10 s) of
             None \<Rightarrow> Inl ValueError
           | Some (y, mo, d) \<Rightarrow>
               if length s = 10 then mk_datetime y mo d 0 0 0 0 None
               else (case parse_hms (take 8 (drop 11 s)) of
                       None \<Rightarrow> Inl ValueError
                     | Some (h, mi, sec) \<Rightarrow>
                         (case parse_fraction (drop 19 s) of
                            None \<Rightarrow> Inl ValueError
                          | Some (us, rest) \<Rightarrow>
                              (case parse_offset rest of
                                 None \<Rightarrow> Inl ValueError
                               | Some tz \<Rightarrow> mk_datetime y mo d h mi sec us tz))))"

text \<open>A server on CPython whose local time zone is UTC.\<close>

definition cpython_utc :: pyenv where
  "cpython_utc = \<lparr>env_fromisoformat = fromisoformat, env_utcoffset = (\<lambda>t. 0)\<rparr>"

section \<open>Timestamps of the rows\<close>

text \<open>\<^verbatim>\<open>s.replace('Z', '+00:00')\<close>: every occurrence is replaced.\<close>

definition replace_Z :: "string \<Rightarrow> string" where
  "replace_Z s = concat (map (\<lambda>c. if c = CHR ''Z'' then ''+00:00'' else [c]) s)"

text \<open>
  \<^verbatim>\<open>parse_timestamp\<close>: a falsy argument gives \<^verbatim>\<open>None\<close>; a value that is not a string
  has no method \<^verbatim>\<open>replace\<close> (AttributeError); ValueError and TypeError from the parser
  or the conversion are caught and give \<^verbatim>\<open>None\<close>, any other exception passes.
\<close>

definition catch_value_type :: "pyexc + int \<Rightarrow> pyexc + int option" where
  "catch_value_type r =
     (case r of
        Inl e \<Rightarrow> if e = ValueError \<or> e = TypeError then Inr None else Inl e
      | Inr u \<Rightarrow> Inr (Some u))"

definition parse_timestamp :: "pyenv \<Rightarrow> pyval \<Rightarrow> pyexc + int option" where
  "parse_timestamp env ts_str =
     (if \<not> truthy ts_str then Inr None
      else case ts_str of
             PStr s \<Rightarrow>
               catch_value_type
                 (bind_exc (env_fromisoformat env (replace_Z s)) (astimezone_utc env))
           | _ \<Rightarrow> Inl AttributeError)"

section \<open>The statistics of the dashboard\<close>

text \<open>
  The function \<^verbatim>\<open>dashboard()\<close> computes its statistics from three readings: the rows of
  \<^verbatim>\<open>tasks\<close> and of \<^verbatim>\<open>focus_sessions\<close> that the store returned, and the clock
  (\<^verbatim>\<open>datetime.now(timezone.utc)\<close>). They are the arguments of the model; each
  definition below is named after the variable of the source that it computes.
\<close>

definition tasks_completed :: "pydict list \<Rightarrow> pydict list" where
  "tasks_completed tasks = filter (\<lambda>task. truthy (dict_get task ''is_complete'')) tasks"

definition tasks_completed_count :: "pydict list \<Rightarrow> nat" where
  "tasks_completed_count tasks = length (tasks_completed tasks)"

definition active_tasks_count :: "pydict list \<Rightarrow> int" where
  "active_tasks_count tasks = int (length tasks) - int (tasks_completed_count tasks)"

definition total_tasks :: "pydict list \<Rightarrow> nat" where
  "total_tasks tasks = length tasks"

definition start_of_this_week :: "int \<Rightarrow> pyexc + int" where
  "start_of_this_week today = minus_days today (weekday today)"

definition start_of_last_week :: "int \<Rightarrow> pyexc + int" where
  "start_of_last_week this_week = minus_days this_week 7"

subsection \<open>Completed tasks of this week and of last week\<close>

text \<open>
  The body of the loop over the completed tasks, on the pair of counters
  (\<^verbatim>\<open>tasks_this_week_count\<close>, \<^verbatim>\<open>tasks_last_week_count\<close>), and the loop.
\<close>

definition task_week_step ::
  "pyenv \<Rightarrow> int \<Rightarrow> int \<Rightarrow> nat \<times> nat \<Rightarrow> pydict \<Rightarrow> pyexc + nat \<times> nat" where
  "task_week_step env this_week last_week counts task =
     bind_exc (parse_timestamp env (dict_get task ''completed_at'')) (\<lambda>completed_at.
       case completed_at of
         None \<Rightarrow> Inr counts
       | Some c \<Rightarrow>
           if this_week \<le> c then Inr (fst counts + 1, snd counts)
           else if last_week \<le> c \<and> c < this_week then Inr (fst counts, snd counts + 1)
           else Inr counts)"

fun task_week_loop ::
  "pyenv \<Rightarrow> int \<Rightarrow> int \<Rightarrow> nat \<times> nat \<Rightarrow> pydict list \<Rightarrow> pyexc + nat \<times> nat" where
  "task_week_loop env this_week last_week counts [] = Inr counts"
| "task_week_loop env this_week last_week counts (task # rest) =
     bind_exc (task_week_step env this_week last_week counts task)
       (\<lambda>counts'. task_week_loop env this_week last_week counts' rest)"

text \<open>
  The percentage of change from last week to this week, computed in the source once on
  the two task counters and once on the two sums of focus minutes.
\<close>

definition percentage_change :: "int \<Rightarrow> int \<Rightarrow> pyexc + int" where
  "percentage_change this_week last_week =
     (if 0 < last_week
      then bind_exc (int_truediv (this_week - last_week) last_week)
             (\<lambda>q. py_round (fmul q (Finite 100)))
      else if 0 < this_week then Inr 100
      else Inr 0)"

subsection \<open>Focus sessions\<close>

text \<open>
  The body of the loop over the focus sessions, on the three accumulators
  (\<^verbatim>\<open>total_focus_minutes\<close>, \<^verbatim>\<open>focus_this_week_min\<close>, \<^verbatim>\<open>focus_last_week_min\<close>), and the
  loop.
\<close>

definition focus_step ::
  "pyenv \<Rightarrow> int \<Rightarrow> int \<Rightarrow> int \<times> int \<times> int \<Rightarrow> pydict \<Rightarrow> pyexc + int \<times> int \<times> int" where
  "focus_step env this_week last_week acc focus_session =
     (case acc of (total_min, this_min, last_min) \<Rightarrow>
        let duration = dict_get_default focus_session ''duration_minutes'' (PInt 0)
        in bind_exc (int_iadd total_min duration) (\<lambda>total'.
           bind_exc (parse_timestamp env (dict_get focus_session ''created_at'')) (\<lambda>created_at.
             case created_at of
               None \<Rightarrow> Inr (total', this_min, last_min)
             | Some c \<Rightarrow>
                 if this_week \<le> c
                 then bind_exc (int_iadd this_min duration) (\<lambda>m. Inr (total', m, last_min))
                 else if last_week \<le> c \<and> c < this_week
                 then bind_exc (int_iadd last_min duration) (\<lambda>m. Inr (total', this_min, m))
                 else Inr (total', this_min, last_min))))"

fun focus_loop ::
  "pyenv \<Rightarrow> int \<Rightarrow> int \<Rightarrow> int \<times> int \<times> int \<Rightarrow> pydict list \<Rightarrow> pyexc + int \<times> int \<times> int" where
  "focus_loop env this_week last_week acc [] = Inr acc"
| "focus_loop env this_week last_week acc (focus_session # rest) =
     bind_exc (focus_step env this_week last_week acc focus_session)
       (\<lambda>acc'. focus_loop env this_week last_week acc' rest)"

definition total_focus_hours :: "int \<Rightarrow> pyexc + pyfloat" where
  "total_focus_hours total_focus_minutes =
     bind_exc (int_truediv total_focus_minutes 60) py_round1"

subsection \<open>Productivity score\<close>

text \<open>The integer \<^verbatim>\<open>0\<close> that the source starts from is the float zero in every use.\<close>

definition task_score :: "nat \<Rightarrow> nat \<Rightarrow> pyexc + pyfloat" where
  "task_score n_completed n_total =
     (if 0 < n_total
      then bind_exc (int_truediv (int n_completed) (int n_total)) (\<lambda>q. Inr (fmul q (Finite 100)))
      else Inr (Finite 0))"

definition focus_score :: "pyfloat \<Rightarrow> pyfloat" where
  "focus_score hours = py_min (fmul hours (Finite 5)) (Finite 100)"

definition productivity_score :: "pyfloat \<Rightarrow> pyfloat \<Rightarrow> pyexc + int" where
  "productivity_score tscore fscore =
     py_round (fadd (fmul tscore float_0_7) (fmul fscore float_0_3))"

subsection \<open>Recent activities\<close>

record activity =
  description :: string
  timestamp :: int

definition activity_step :: "pyenv \<Rightarrow> activity list \<Rightarrow> pydict \<Rightarrow> pyexc + activity list" where
  "activity_step env acts task =
     bind_exc (parse_timestamp env (dict_get task ''completed_at'')) (\<lambda>completed_at.
       case completed_at of
         None \<Rightarrow> Inr acts
       | Some c \<Rightarrow>
           bind_exc (dict_item task ''title'') (\<lambda>title.
             Inr (acts @ [\<lparr>description =
                             ''You completed task '' @ [CHR 0x22] @ py_str title @ [CHR 0x22],
                           timestamp = c\<rparr>])))"

fun activity_loop :: "pyenv \<Rightarrow> activity list \<Rightarrow> pydict list \<Rightarrow> pyexc + activity list" where
  "activity_loop env acts [] = Inr acts"
| "activity_loop env acts (task # rest) =
     bind_exc (activity_step env acts task) (\<lambda>acts'. activity_loop env acts' rest)"

text \<open>
  \<^verbatim>\<open>xs.sort(key=..., reverse=True)\<close>: a stable sort into descending order of the keys,
  which keeps elements of equal keys in their order (the list is reversed, sorted by
  a stable ascending sort and reversed again).
\<close>

definition sort_reverse :: "('a \<Rightarrow> int) \<Rightarrow> 'a list \<Rightarrow> 'a list" where
  "sort_reverse k xs = rev (sort_key k (rev xs))"

subsection \<open>The whole computation\<close>

text \<open>The values that \<^verbatim>\<open>dashboard()\<close> hands to its template.\<close>

record dashboard_context =
  ctx_tasks_completed_count :: nat
  ctx_active_tasks_count :: int
  ctx_percentage_change :: int
  ctx_recent_activities :: "activity list"
  ctx_total_focus_hours :: pyfloat
  ctx_focus_percentage_change :: int
  ctx_productivity_score :: int

definition dashboard ::
  "pyenv \<Rightarrow> int \<Rightarrow> pydict list \<Rightarrow> pydict list \<Rightarrow> pyexc + dashboard_context" where
  "dashboard env today tasks focus_sessions =
     bind_exc (start_of_this_week today) (\<lambda>this_week.
     bind_exc (start_of_last_week this_week) (\<lambda>last_week.
     bind_exc (task_week_loop env this_week last_week (0, 0) (tasks_completed tasks)) (\<lambda>counts.
     bind_exc (percentage_change (int (fst counts)) (int (snd counts))) (\<lambda>task_change.
     bind_exc (focus_loop env this_week last_week (0, 0, 0) focus_sessions) (\<lambda>acc.
     bind_exc (total_focus_hours (fst acc)) (\<lambda>hours.
     bind_exc (percentage_change (fst (snd acc)) (snd (snd acc))) (\<lambda>focus_change.
     bind_exc (task_score (tasks_completed_count tasks) (total_tasks tasks)) (\<lambda>tscore.
     bind_exc (productivity_score tscore (focus_score hours)) (\<lambda>score.
     bind_exc (activity_loop env [] (tasks_completed tasks)) (\<lambda>acts.
       Inr \<lparr>ctx_tasks_completed_count = tasks_completed_count tasks,
            ctx_active_tasks_count = active_tasks_count tasks,
            ctx_percentage_change = task_change,
            ctx_recent_activities = take 10 (sort_reverse timestamp acts),
            ctx_total_focus_hours = hours,
            ctx_focus_percentage_change = focus_change,
            ctx_productivity_score = score\<rparr>))))))))))"

section \<open>The statistics, as sums over the rows\<close>

text \<open>
  What the loops are to compute, said without loops: a row is in a window when the
  timestamp under a key parses to an instant of that window; the duration of a session
  is the integer under \<^verbatim>\<open>duration_minutes\<close>, or 0 when there is no such key; the
  activity of a task carries its title and its completion time.
\<close>

definition stamped :: "pyenv \<Rightarrow> string \<Rightarrow> (int \<Rightarrow> bool) \<Rightarrow> pydict \<Rightarrow> bool" where
  "stamped env k P r =
     (case parse_timestamp env (dict_get r k) of Inr (Some t) \<Rightarrow> P t | _ \<Rightarrow> False)"

definition duration_of :: "pydict \<Rightarrow> int" where
  "duration_of r =
     (case r ''duration_minutes'' of
        None \<Rightarrow> 0
      | Some (PInt d) \<Rightarrow> d
      | Some (PBool b) \<Rightarrow> (if b then 1 else 0)
      | Some _ \<Rightarrow> 0)"

definition is_integer :: "pyval \<Rightarrow> bool" where
  "is_integer v = (case v of PInt d \<Rightarrow> True | PBool b \<Rightarrow> True | _ \<Rightarrow> False)"

definition completed_note :: "string \<Rightarrow> int \<Rightarrow> activity" where
  "completed_note title t =
     \<lparr>description = ''You completed task '' @ [CHR 0x22] @ title @ [CHR 0x22], timestamp = t\<rparr>"

definition activity_of :: "pyenv \<Rightarrow> pydict \<Rightarrow> activity" where
  "activity_of env task =
     completed_note (py_str (dict_get task ''title''))
       (case parse_timestamp env (dict_get task ''completed_at'') of
          Inr (Some t) \<Rightarrow> t | _ \<Rightarrow> 0)"

section \<open>An example\<close>

text \<open>
  A Thursday noon, 2024-01-04T12:00:00 UTC, with eight tasks and five focus sessions.
  The week began on Monday 2024-01-01 at noon, so the call finished at eight on that
  Monday counts for last week; one task and one session are dated in the future; one
  task has a completion time that does not parse, one session has none that parses
  and one has no duration.
\<close>

definition example_today :: int where
  "example_today = ((738888 * 24 + 12) * 3600) * 1000000"

definition example_tasks :: "pydict list" where
  "example_tasks =
     [map_of [(''title'', PStr ''write report''), (''is_complete'', PBool True),
              (''completed_at'', PStr ''2024-01-03T09:00:00Z'')],
      map_of [(''title'', PStr ''call Ada''), (''is_complete'', PBool True),
              (''completed_at'', PStr ''2024-01-01T08:00:00+00:00'')],
      map_of [(''title'', PStr ''plan sprint''), (''is_complete'', PBool False),
              (''completed_at'', PNone)],
      map_of [(''title'', PStr ''pay rent''), (''is_complete'', PBool True),
              (''completed_at'', PStr ''2023-12-27T10:00:00.250000+00:00'')],
      map_of [(''title'', PStr ''book flight''), (''is_complete'', PBool True),
              (''completed_at'', PStr ''2023-12-26T23:30:00+05:30'')],
      map_of [(''title'', PStr ''renew pass''), (''is_complete'', PBool True),
              (''completed_at'', PStr ''2023-12-30T18:45:10Z'')],
      map_of [(''title'', PStr ''file taxes''), (''is_complete'', PBool True),
              (''completed_at'', PStr ''2024-01-10T00:00:00Z'')],
      map_of [(''title'', PStr ''old import''), (''is_complete'', PBool True),
              (''completed_at'', PStr ''last spring'')]]"

definition example_sessions :: "pydict list" where
  "example_sessions =
     [map_of [(''duration_minutes'', PInt 50), (''created_at'', PStr ''2024-01-02T13:00:00Z'')],
      map_of [(''duration_minutes'', PInt 50), (''created_at'', PStr ''2023-12-28T07:15:00Z'')],
      map_of [(''created_at'', PStr ''2024-01-03T16:00:00Z'')],
      map_of [(''duration_minutes'', PInt 55), (''created_at'', PStr ''not a date'')],
      map_of [(''duration_minutes'', PInt 25), (''created_at'', PStr ''2024-02-01T00:00:00Z'')]]"

text \<open>The activities of the example in the order of the tasks, and its feed.\<close>

definition example_activities :: "activity list" where
  "example_activities =
     [completed_note ''write report'' 63839869200000000,
      completed_note ''call Ada'' 63839692800000000,
      completed_note ''pay rent'' 63839268000250000,
      completed_note ''book flight'' 63839210400000000,
      completed_note ''renew pass'' 63839558710000000,
      completed_note ''file taxes'' 63840441600000000]"

definition example_feed :: "activity list" where
  "example_feed =
     [completed_note ''file taxes'' 63840441600000000,
      completed_note ''write report'' 63839869200000000,
      completed_note ''call Ada'' 63839692800000000,
      completed_note ''renew pass'' 63839558710000000,
      completed_note ''pay rent'' 63839268000250000,
      completed_note ''book flight'' 63839210400000000]"

definition example_context :: dashboard_context where
  "example_context =
     \<lparr>ctx_tasks_completed_count = 7, ctx_active_tasks_count = 1,
      ctx_percentage_change = - 50, ctx_recent_activities = example_feed,
      ctx_total_focus_hours = Finite 3, ctx_focus_percentage_change = 50,
      ctx_productivity_score = 66\<rparr>"

text \<open>Orders of a feed: each activity later than the next, or not earlier.\<close>

definition strictly_descending :: "activity list \<Rightarrow> bool" where
  "strictly_descending acts = sorted_wrt (\<lambda>a b. timestamp b < timestamp a) acts"

definition descending :: "activity list \<Rightarrow> bool" where
  "descending acts = sorted_wrt (\<lambda>a b. timestamp b \<le> timestamp a) acts"

text \<open>Two tasks completed at the same instant, on the day before the example's.\<close>

definition tie_tasks :: "pydict list" where
  "tie_tasks =
     [map_of [(''title'', PStr ''water plants''), (''is_complete'', PBool True),
              (''completed_at'', PStr ''2024-01-03T09:00:00Z'')],
      map_of [(''title'', PStr ''feed cat''), (''is_complete'', PBool True),
              (''completed_at'', PStr ''2024-01-03T09:00:00Z'')]]"

definition tie_feed :: "activity list" where
  "tie_feed =
     [completed_note ''water plants'' 63839869200000000,
      completed_note ''feed cat'' 63839869200000000]"

definition tie_context :: dashboard_context where
  "tie_context =
     \<lparr>ctx_tasks_completed_count = 2, ctx_active_tasks_count = 0,
      ctx_percentage_change = 100, ctx_recent_activities = tie_feed,
      ctx_total_focus_hours = Finite 0, ctx_focus_percentage_change = 0,
      ctx_productivity_score = 70\<rparr>"

text \<open>One focus session whose duration is null.\<close>

definition null_duration_sessions :: "pydict list" where
  "null_duration_sessions =
     [map_of [(''duration_minutes'', PNone), (''created_at'', PStr ''2024-01-02T13:00:00Z'')]]"

section \<open>Rounding to the nearest float\<close>

text \<open>
  Rounding to the nearest integer and to the nearest float stay within the integers
  and the floats that bound the exact value.
\<close>

lemma rhe_upper: "of_int (round_half_even x) \<le> x + 1 / 2"
  unfolding round_half_even_def Let_def by (auto; linarith)

lemma rhe_lower: "x - 1 / 2 \<le> of_int (round_half_even x)"
  unfolding round_half_even_def Let_def by (auto; linarith)

lemma rhe_le_int: "x \<le> of_int n \<Longrightarrow> round_half_even x \<le> n"
  unfolding round_half_even_def Let_def
  by (auto simp: floor_le_iff; linarith)

lemma rhe_ge_int: "of_int n \<le> x \<Longrightarrow> n \<le> round_half_even x"
  unfolding round_half_even_def Let_def
  by (auto simp: le_floor_iff; linarith)

lemma rhe_of_int: "round_half_even (of_int n) = n"
  unfolding round_half_even_def Let_def by simp

lemma pow2_powi: "pow2 e = 2 powi e"
  unfolding pow2_def power_int_def by (simp add: field_simps)

lemma pow2_pos: "0 < pow2 e"
  by (simp add: pow2_powi)

lemma pow2_add: "pow2 (a + b) = pow2 a * pow2 b"
  by (simp add: pow2_powi power_int_add)

lemma pow2_mono: "a \<le> b \<Longrightarrow> pow2 a \<le> pow2 b"
  by (simp add: pow2_powi power_int_increasing)

lemma pow2_less: "a < b \<Longrightarrow> pow2 a < pow2 b"
  by (simp add: pow2_powi power_int_strict_increasing)

lemma ilog2_bounds:
  assumes "0 < x"
  shows "pow2 (ilog2 x) \<le> x" and "x < pow2 (ilog2 x + 1)"
proof -
  have "pow2 (ilog2 x) \<le> x \<and> x < pow2 (ilog2 x + 1)"
  proof (cases "1 \<le> x")
    case True
    define n where "n = \<lfloor>x\<rfloor>"
    have n: "1 \<le> n" "of_int n \<le> x" "x < of_int n + 1"
      using True floor_correct[of x] by (auto simp: n_def le_floor_iff)
    define b where "b = bitlen n"
    have bb: "2 ^ nat (b - 1) \<le> n" "n < 2 ^ nat b"
      using bitlen_bounds[of n] n(1) by (auto simp: b_def)
    have b1: "1 \<le> b"
      using bitlen_eq_zero_iff[of n] bitlen_nonneg[of n] n(1) by (simp add: b_def)
    have lo: "(2::rat) ^ nat (b - 1) \<le> of_int n"
      using bb(1) of_int_le_iff[where ?'a = rat, of "2 ^ nat (b - 1)" n] by simp
    have "n + 1 \<le> 2 ^ nat b" using bb(2) by simp
    then have hi: "of_int n + 1 \<le> (2::rat) ^ nat b"
      using of_int_le_iff[where ?'a = rat, of "n + 1" "2 ^ nat b"] by simp
    have il: "ilog2 x = b - 1"
      using True by (simp add: ilog2_def n_def b_def)
    have p1: "pow2 (b - 1) = 2 ^ nat (b - 1)" and p2: "pow2 b = 2 ^ nat b"
      using b1 by (simp_all add: pow2_def)
    have "pow2 (b - 1) \<le> x" unfolding p1 using lo n(2) by linarith
    moreover have "x < pow2 b" unfolding p2 using hi n(3) by linarith
    ultimately show ?thesis
      by (simp add: il)
  next
    case False
    define y where "y = 1 / x"
    have y1: "1 < y" using False assms by (simp add: y_def)
    define n where "n = \<lceil>y\<rceil> - 1"
    have n: "1 \<le> n" "of_int n < y" "y \<le> of_int n + 1"
      using y1 ceiling_correct[of y] by (auto simp: n_def less_ceiling_iff)
    define b where "b = bitlen n"
    have bb: "2 ^ nat (b - 1) \<le> n" "n < 2 ^ nat b"
      using bitlen_bounds[of n] n(1) by (auto simp: b_def)
    have b1: "1 \<le> b"
      using bitlen_eq_zero_iff[of n] bitlen_nonneg[of n] n(1) by (simp add: b_def)
    have lo: "(2::rat) ^ nat (b - 1) \<le> of_int n"
      using bb(1) of_int_le_iff[where ?'a = rat, of "2 ^ nat (b - 1)" n] by simp
    have "n + 1 \<le> 2 ^ nat b" using bb(2) by simp
    then have hi: "of_int n + 1 \<le> (2::rat) ^ nat b"
      using of_int_le_iff[where ?'a = rat, of "n + 1" "2 ^ nat b"] by simp
    have il: "ilog2 x = - b"
      using False by (simp add: ilog2_def n_def b_def y_def)
    have ylo: "(2::rat) ^ nat (b - 1) < y" using lo n(2) by linarith
    have yhi: "y \<le> (2::rat) ^ nat b" using hi n(3) by linarith
    have x: "x = 1 / y" using assms by (simp add: y_def)
    have p1: "pow2 (- b) = 1 / 2 ^ nat b"
      using b1 by (simp add: pow2_def)
    have p2: "pow2 (- b + 1) = 1 / 2 ^ nat (b - 1)"
      using b1 by (auto simp: pow2_def) 
    have "1 / 2 ^ nat b \<le> 1 / y"
      using yhi y1 by (simp add: frac_le)
    then have "pow2 (ilog2 x) \<le> x"
      unfolding il p1 x[symmetric] .
    moreover have "1 / y < 1 / 2 ^ nat (b - 1)"
      using ylo by (simp add: frac_less2)
    then have "x < pow2 (ilog2 x + 1)"
      unfolding il p2 x[symmetric] .
    ultimately show ?thesis ..
  qed
  then show "pow2 (ilog2 x) \<le> x" and "x < pow2 (ilog2 x + 1)" by auto
qed


lemma pow2_less_imp: "pow2 a < pow2 b \<Longrightarrow> a < b"
  using pow2_mono[of b a] by (cases "a < b") auto

lemma pow2_nat: "0 \<le> e \<Longrightarrow> pow2 e = of_int (2 ^ nat e)"
  by (simp add: pow2_def)

lemma fl_round_pos:
  "0 < x \<Longrightarrow> fl_round x =
     (if pow2 1024 \<le> of_int (round_half_even (x / pow2 (max (ilog2 x - 52) (- 1074))))
                        * pow2 (max (ilog2 x - 52) (- 1074))
      then PosInf
      else Finite (of_int (round_half_even (x / pow2 (max (ilog2 x - 52) (- 1074))))
                        * pow2 (max (ilog2 x - 52) (- 1074))))"
  by (simp add: fl_round_def Let_def)

lemma fl_round_nonneg:
  assumes "0 \<le> x"
  shows "fl_round x = PosInf \<or> (\<exists>r. fl_round x = Finite r \<and> 0 \<le> r)"
proof (cases "x = 0")
  case True
  then show ?thesis by (simp add: fl_round_def)
next
  case False
  then have x: "0 < x" using assms by simp
  define e where "e = max (ilog2 x - 52) (- 1074)"
  define m where "m = round_half_even (x / pow2 e)"
  have "of_int 0 \<le> x / pow2 e" using pow2_pos[of e] x by simp
  then have "0 \<le> m" unfolding m_def by (rule rhe_ge_int)
  then have "0 \<le> of_int m * pow2 e" using pow2_pos[of e] by simp
  then show ?thesis
    unfolding fl_round_pos[OF x] e_def[symmetric] m_def[symmetric] by simp
qed

lemma fl_round_le:
  assumes x: "0 \<le> x" and le: "x \<le> of_int M * pow2 k"
    and M: "M < 2 ^ 53" and k: "- 1074 \<le> k" and fin: "of_int M * pow2 k < pow2 1024"
  shows "\<exists>r. fl_round x = Finite r \<and> 0 \<le> r \<and> r \<le> of_int M * pow2 k"
proof (cases "x = 0")
  case True
  then show ?thesis using le by (simp add: fl_round_def)
next
  case False
  then have xp: "0 < x" using x by simp
  define e where "e = max (ilog2 x - 52) (- 1074)"
  define m where "m = round_half_even (x / pow2 e)"
  have "(of_int M :: rat) < of_int (2 ^ 53)" using M by (simp only: of_int_less_iff)
  then have "of_int M * pow2 k < pow2 53 * pow2 k"
    using pow2_pos[of k] by (simp add: pow2_def)
  then have "x < pow2 (53 + k)" using le by (simp add: pow2_add)
  then have "pow2 (ilog2 x) < pow2 (53 + k)"
    using ilog2_bounds(1)[OF xp] by linarith
  then have "ilog2 x < 53 + k" by (rule pow2_less_imp)
  then have ek: "e \<le> k" using k by (simp add: e_def)
  have "pow2 k = pow2 (k - e) * pow2 e"
    using pow2_add[of "k - e" e] by simp
  also have "pow2 (k - e) = of_int (2 ^ nat (k - e))"
    using ek by (simp add: pow2_nat)
  finally have pk: "pow2 k = of_int (2 ^ nat (k - e)) * pow2 e" .
  have "x / pow2 e \<le> of_int M * pow2 k / pow2 e"
    using le pow2_pos[of e] by (simp add: divide_right_mono)
  also have "\<dots> = of_int (M * 2 ^ nat (k - e))"
    using pow2_pos[of e] by (simp add: pk)
  finally have "m \<le> M * 2 ^ nat (k - e)"
    unfolding m_def by (rule rhe_le_int)
  then have "(of_int m :: rat) \<le> of_int (M * 2 ^ nat (k - e))"
    by (simp only: of_int_le_iff)
  then have "of_int m * pow2 e \<le> of_int (M * 2 ^ nat (k - e)) * pow2 e"
    using pow2_pos[of e] by (simp add: mult_right_mono)
  also have "\<dots> = of_int M * pow2 k"
    by (simp add: pk)
  finally have up: "of_int m * pow2 e \<le> of_int M * pow2 k" .
  have "of_int 0 \<le> x / pow2 e" using pow2_pos[of e] xp by simp
  then have "0 \<le> m" unfolding m_def by (rule rhe_ge_int)
  then have lo: "0 \<le> of_int m * pow2 e" using pow2_pos[of e] by simp
  have "\<not> pow2 1024 \<le> of_int m * pow2 e" using up fin by linarith
  then show ?thesis
    unfolding fl_round_pos[OF xp] e_def[symmetric] m_def[symmetric]
    using up lo by simp
qed


lemma fl_round_le_int:
  assumes "0 \<le> x" "x \<le> of_int n" "n < 2 ^ 53"
  shows "\<exists>r. fl_round x = Finite r \<and> 0 \<le> r \<and> r \<le> of_int n"
proof -
  have "(of_int n :: rat) < of_int (2 ^ 53)" using assms(3) by (simp only: of_int_less_iff)
  then have "of_int n < pow2 53" by (simp add: pow2_def)
  then have "of_int n * pow2 0 < pow2 1024"
    using pow2_less[of 53 1024] by (simp add: pow2_def)
  moreover have "x \<le> of_int n * pow2 0" using assms(2) by (simp add: pow2_def)
  ultimately show ?thesis
    using fl_round_le[of x n 0] assms(1,3) by (simp add: pow2_def)
qed

lemma float_max_eq: "float_max = of_int (2 ^ 53 - 1) * pow2 971"
  by (simp add: float_max_def pow2_def)

lemma fl_round_le_max:
  assumes "0 \<le> x" "x \<le> float_max"
  shows "\<exists>r. fl_round x = Finite r \<and> 0 \<le> r \<and> r \<le> float_max"
proof -
  have "of_int (2 ^ 53 - 1) * pow2 971 < pow2 53 * pow2 971"
    using pow2_pos[of 971] by (simp add: pow2_def)
  also have "\<dots> = pow2 1024" using pow2_add[of 53 971] by simp
  finally have "of_int (2 ^ 53 - 1) * pow2 971 < pow2 1024" .
  then show ?thesis
    using fl_round_le[of x "2 ^ 53 - 1" 971] assms by (simp add: float_max_eq)
qed

text \<open>
  A float is checked to be the rounding of \<open>x\<close> from its significand \<open>m\<close> and its
  exponent \<open>e\<close>, away from the ties.
\<close>

lemma ilog2_eqI:
  assumes "0 < x" "pow2 n \<le> x" "x < pow2 (n + 1)"
  shows "ilog2 x = n"
proof -
  have "pow2 (ilog2 x) < pow2 (n + 1)"
    using ilog2_bounds(1)[OF assms(1)] assms(3) by linarith
  then have "ilog2 x < n + 1" by (rule pow2_less_imp)
  moreover have "pow2 n < pow2 (ilog2 x + 1)"
    using ilog2_bounds(2)[OF assms(1)] assms(2) by linarith
  then have "n < ilog2 x + 1" by (rule pow2_less_imp)
  ultimately show ?thesis by simp
qed

lemma rhe_eqI:
  assumes "\<bar>x - of_int m\<bar> < 1 / 2"
  shows "round_half_even x = m"
proof -
  have "\<bar>(of_int (round_half_even x) :: rat) - of_int m\<bar> < 1"
    using rhe_upper[of x] rhe_lower[of x] assms by linarith
  then have "\<bar>(of_int (round_half_even x - m) :: rat)\<bar> < of_int 1" by simp
  then have "\<bar>round_half_even x - m\<bar> < 1"
    by (metis of_int_abs of_int_less_iff)
  then show ?thesis by simp
qed

lemma fl_round_eqI:
  assumes "0 < x" "pow2 (e + 52) \<le> x" "x < pow2 (e + 53)" "- 1074 \<le> e"
    and "\<bar>x / pow2 e - of_int m\<bar> < 1 / 2" "of_int m * pow2 e < pow2 1024"
  shows "fl_round x = Finite (of_int m * pow2 e)"
proof -
  have "ilog2 x = e + 52"
    using ilog2_eqI[of x "e + 52"] assms(1-3) by (simp add: add.commute)
  then have "max (ilog2 x - 52) (- 1074) = e" using assms(4) by simp
  then show ?thesis
    unfolding fl_round_pos[OF assms(1)] using rhe_eqI[OF assms(5)] assms(6) by simp
qed

lemma fl_round_neg: "fl_round (- x) = fneg (fl_round x)"
  by (simp add: fl_round_def Let_def)

lemma fl_round_0 [simp]: "fl_round 0 = Finite 0"
  by (simp add: fl_round_def)

lemma rhe_tieI:
  assumes "\<bar>x - of_int m\<bar> = 1 / 2" "even m"
  shows "round_half_even x = m"
proof -
  consider "x = of_int m + 1 / 2" | "x = of_int m - 1 / 2"
    using assms(1) by (cases "of_int m \<le> x") (simp_all add: abs_if split: if_splits)
  then show ?thesis
  proof cases
    case 1
    have "\<lfloor>x\<rfloor> = m" unfolding 1 by (simp add: floor_unique)
    then show ?thesis using assms(2) 1 by (simp add: round_half_even_def Let_def)
  next
    case 2
    have "\<lfloor>x\<rfloor> = m - 1" unfolding 2 by (simp add: floor_unique)
    then show ?thesis using assms(2) 2 by (simp add: round_half_even_def Let_def)
  qed
qed

lemma fl_round_tieI:
  assumes "0 < x" "pow2 (e + 52) \<le> x" "x < pow2 (e + 53)" "- 1074 \<le> e"
    and "\<bar>x / pow2 e - of_int m\<bar> = 1 / 2" "even m" "of_int m * pow2 e < pow2 1024"
  shows "fl_round x = Finite (of_int m * pow2 e)"
proof -
  have "ilog2 x = e + 52"
    using ilog2_eqI[of x "e + 52"] assms(1-3) by (simp add: add.commute)
  then have "max (ilog2 x - 52) (- 1074) = e" using assms(4) by simp
  then show ?thesis
    unfolding fl_round_pos[OF assms(1)] using rhe_tieI[OF assms(5,6)] assms(7) by simp
qed

lemma float_0_7_eq: "float_0_7 = Finite (3152519739159347 / 4503599627370496)"
  unfolding float_0_7_def
  using fl_round_eqI[of "7 / 10" "- 53" 6305039478318694] by (simp add: pow2_def)

lemma float_0_3_eq: "float_0_3 = Finite (5404319552844595 / 18014398509481984)"
  unfolding float_0_3_def
  using fl_round_eqI[of "3 / 10" "- 54" 5404319552844595] by (simp add: pow2_def)

lemma task_score_range:
  assumes "c \<le> t"
  shows "\<exists>r. task_score c t = Inr (Finite r) \<and> 0 \<le> r \<and> r \<le> 100"
proof (cases "0 < t")
  case False
  then show ?thesis by (simp add: task_score_def)
next
  case True
  have "0 \<le> (of_int (int c) / of_int (int t) :: rat)" by simp
  moreover have "(of_int (int c) / of_int (int t) :: rat) \<le> of_int 1"
    using assms True by simp
  ultimately obtain q where q: "fl_round (of_int (int c) / of_int (int t)) = Finite q"
      "0 \<le> q" "q \<le> 1"
    using fl_round_le_int[of "of_int (int c) / of_int (int t)" 1] by auto
  have "0 \<le> q * 100" "q * 100 \<le> of_int 100" using q by simp_all
  then obtain r where r: "fl_round (q * 100) = Finite r" "0 \<le> r" "r \<le> 100"
    using fl_round_le_int[of "q * 100" 100] by auto
  show ?thesis
    using True q r by (simp add: task_score_def int_truediv_def bind_exc_def)
qed

lemma total_focus_hours_range:
  assumes "0 \<le> m" "of_int m \<le> 60 * float_max"
  shows "\<exists>h. total_focus_hours m = Inr (Finite h) \<and> 0 \<le> h \<and> h \<le> float_max"
proof -
  have "0 \<le> (of_int m / of_int 60 :: rat)" using assms(1) by simp
  moreover have "(of_int m / of_int 60 :: rat) \<le> float_max" using assms(2) by simp
  ultimately obtain q where q: "fl_round (of_int m / of_int 60) = Finite q"
      "0 \<le> q" "q \<le> float_max"
    using fl_round_le_max by blast
  define k where "k = round_half_even (q * 10)"
  have "of_int 0 \<le> q * 10" using q by simp
  then have k0: "0 \<le> k" unfolding k_def by (rule rhe_ge_int)
  have "q * 10 \<le> of_int ((2 ^ 53 - 1) * 2 ^ 971 * 10)"
    using q(3) by (simp add: float_max_def)
  then have "k \<le> (2 ^ 53 - 1) * 2 ^ 971 * 10" unfolding k_def by (rule rhe_le_int)
  then have "(of_int k :: rat) \<le> of_int ((2 ^ 53 - 1) * 2 ^ 971 * 10)"
    by (simp only: of_int_le_iff)
  then have "(of_int k / 10 :: rat) \<le> float_max" by (simp add: float_max_def)
  moreover have "0 \<le> (of_int k / 10 :: rat)" using k0 by simp
  ultimately obtain h where h: "fl_round (of_int k / 10) = Finite h" "0 \<le> h" "h \<le> float_max"
    using fl_round_le_max by blast
  show ?thesis
    using q h by (simp add: total_focus_hours_def int_truediv_def bind_exc_def k_def)
qed

lemma focus_score_range:
  assumes "0 \<le> h"
  shows "\<exists>f. focus_score (Finite h) = Finite f \<and> 0 \<le> f \<and> f \<le> 100"
proof -
  have "0 \<le> h * 5" using assms by simp
  then consider "fl_round (h * 5) = PosInf" | r where "fl_round (h * 5) = Finite r" "0 \<le> r"
    using fl_round_nonneg by blast
  then show ?thesis
    by cases (auto simp: focus_score_def py_min_def)
qed

lemma productivity_score_range:
  assumes "0 \<le> ts" "ts \<le> 100" "0 \<le> f" "f \<le> 100"
  shows "\<exists>s. productivity_score (Finite ts) (Finite f) = Inr s \<and> 0 \<le> s \<and> s \<le> 100"
proof -
  let ?c7 = "3152519739159347 / 4503599627370496 :: rat"
  let ?c3 = "5404319552844595 / 18014398509481984 :: rat"
  have "0 \<le> ts * ?c7" using assms by simp
  moreover have "ts * ?c7 \<le> of_int 70" using assms by simp
  ultimately obtain a where a: "fl_round (ts * ?c7) = Finite a" "0 \<le> a" "a \<le> 70"
    using fl_round_le_int[of "ts * ?c7" 70] by auto
  have "0 \<le> f * ?c3" using assms by simp
  moreover have "f * ?c3 \<le> of_int 30" using assms by simp
  ultimately obtain b where b: "fl_round (f * ?c3) = Finite b" "0 \<le> b" "b \<le> 30"
    using fl_round_le_int[of "f * ?c3" 30] by auto
  have "0 \<le> a + b" "a + b \<le> of_int 100" using a b by simp_all
  then obtain s where s: "fl_round (a + b) = Finite s" "0 \<le> s" "s \<le> 100"
    using fl_round_le_int[of "a + b" 100] by auto
  have "of_int 0 \<le> s" "s \<le> of_int 100" using s by simp_all
  then have "0 \<le> round_half_even s" "round_half_even s \<le> 100"
    using rhe_ge_int[of 0 s] rhe_le_int[of s 100] by blast+
  then show ?thesis
    using a b s by (simp add: productivity_score_def float_0_7_eq float_0_3_eq)
qed

section \<open>The steps of the dashboard\<close>

lemma bind_exc_Inr [simp]: "bind_exc (Inr v) f = f v"
  by (simp add: bind_exc_def)

lemma bind_exc_Inl [simp]: "bind_exc (Inl e) f = Inl e"
  by (simp add: bind_exc_def)

lemma bind_exc_eq_Inr: "(bind_exc r f = Inr y) = (\<exists>v. r = Inr v \<and> f v = Inr y)"
  by (cases r) simp_all

lemma dashboard_InrD:
  assumes "dashboard env today tasks focus_sessions = Inr ctx"
  obtains this_week last_week counts acc hours tscore acts where
    "start_of_this_week today = Inr this_week"
    "start_of_last_week this_week = Inr last_week"
    "task_week_loop env this_week last_week (0, 0) (tasks_completed tasks) = Inr counts"
    "percentage_change (int (fst counts)) (int (snd counts)) = Inr (ctx_percentage_change ctx)"
    "focus_loop env this_week last_week (0, 0, 0) focus_sessions = Inr acc"
    "total_focus_hours (fst acc) = Inr hours"
    "percentage_change (fst (snd acc)) (snd (snd acc)) = Inr (ctx_focus_percentage_change ctx)"
    "task_score (tasks_completed_count tasks) (total_tasks tasks) = Inr tscore"
    "productivity_score tscore (focus_score hours) = Inr (ctx_productivity_score ctx)"
    "activity_loop env [] (tasks_completed tasks) = Inr acts"
    "ctx_recent_activities ctx = take 10 (sort_reverse timestamp acts)"
    "ctx_total_focus_hours ctx = hours"
    "ctx_tasks_completed_count ctx = tasks_completed_count tasks"
    "ctx_active_tasks_count ctx = active_tasks_count tasks"
  using assms unfolding dashboard_def bind_exc_eq_Inr by force

lemma completed_le_total: "tasks_completed_count tasks \<le> total_tasks tasks"
  by (simp add: tasks_completed_count_def tasks_completed_def total_tasks_def)

lemma task_week_step_cases:
  "task_week_step env sw slw counts task =
     (case parse_timestamp env (dict_get task ''completed_at'') of
        Inl e \<Rightarrow> Inl e
      | Inr None \<Rightarrow> Inr counts
      | Inr (Some t) \<Rightarrow>
          Inr (if sw \<le> t then (fst counts + 1, snd counts)
               else if slw \<le> t \<and> t < sw then (fst counts, snd counts + 1) else counts))"
  by (simp add: task_week_step_def bind_exc_def split: sum.splits option.splits)

lemma task_week_loop_counts:
  "task_week_loop env sw slw counts ts = Inr counts' \<Longrightarrow>
     fst counts' = fst counts + length (filter (stamped env ''completed_at'' (\<lambda>t. sw \<le> t)) ts)
     \<and> snd counts' = snd counts
          + length (filter (stamped env ''completed_at'' (\<lambda>t. slw \<le> t \<and> t < sw)) ts)"
proof (induction ts arbitrary: counts)
  case Nil
  then show ?case by simp
next
  case (Cons task ts)
  from Cons.prems obtain c where
    step: "task_week_step env sw slw counts task = Inr c"
    and rest: "task_week_loop env sw slw c ts = Inr counts'"
    by (auto simp: bind_exc_eq_Inr)
  from Cons.IH[OF rest] step show ?case
    by (auto simp: task_week_step_cases stamped_def split: sum.splits option.splits if_splits)
qed

lemma focus_step_cases:
  "focus_step env sw slw (tot, a, b) s =
     (if \<not> is_integer (dict_get_default s ''duration_minutes'' (PInt 0)) then Inl TypeError
      else case parse_timestamp env (dict_get s ''created_at'') of
             Inl e \<Rightarrow> Inl e
           | Inr None \<Rightarrow> Inr (tot + duration_of s, a, b)
           | Inr (Some t) \<Rightarrow>
               Inr (tot + duration_of s,
                    if sw \<le> t then a + duration_of s else a,
                    if \<not> sw \<le> t \<and> slw \<le> t then b + duration_of s else b))"
  by (cases "dict_get_default s ''duration_minutes'' (PInt 0)")
     (auto simp: focus_step_def bind_exc_def is_integer_def duration_of_def dict_get_default_def
      split: sum.splits option.splits)

lemma focus_loop_sums:
  "focus_loop env sw slw acc ss = Inr acc' \<Longrightarrow>
     fst acc' = fst acc + sum_list (map duration_of ss)
     \<and> fst (snd acc') = fst (snd acc)
          + sum_list (map duration_of (filter (stamped env ''created_at'' (\<lambda>t. sw \<le> t)) ss))
     \<and> snd (snd acc') = snd (snd acc)
          + sum_list (map duration_of
              (filter (stamped env ''created_at'' (\<lambda>t. slw \<le> t \<and> t < sw)) ss))"
proof (induction ss arbitrary: acc)
  case Nil
  then show ?case by simp
next
  case (Cons s ss)
  from Cons.prems obtain c where
    step: "focus_step env sw slw acc s = Inr c"
    and rest: "focus_loop env sw slw c ss = Inr acc'"
    by (auto simp: bind_exc_eq_Inr)
  obtain tot a b where acc: "acc = (tot, a, b)" by (cases acc) auto
  from Cons.IH[OF rest] step show ?case
    unfolding acc
    by (auto simp: focus_step_cases stamped_def split: sum.splits option.splits if_splits)
qed

lemma focus_step_returns:
  assumes "is_integer (dict_get_default s ''duration_minutes'' (PInt 0))"
    and "\<forall>e. parse_timestamp env (dict_get s ''created_at'') \<noteq> Inl e"
  shows "\<exists>tot' a' b'. focus_step env sw slw (tot, a, b) s = Inr (tot', a', b')"
proof (cases "parse_timestamp env (dict_get s ''created_at'')")
  case (Inl e)
  then show ?thesis using assms(2) by simp
next
  case (Inr stamp)
  then show ?thesis using assms(1) by (cases stamp) (simp_all add: focus_step_cases)
qed

lemma focus_loop_returns:
  assumes "\<forall>s \<in> set ss. is_integer (dict_get_default s ''duration_minutes'' (PInt 0))
             \<and> (\<forall>e. parse_timestamp env (dict_get s ''created_at'') \<noteq> Inl e)"
  shows "\<exists>acc'. focus_loop env sw slw (tot, a, b) ss = Inr acc'"
  using assms
proof (induction ss arbitrary: tot a b)
  case Nil
  then show ?case by simp
next
  case (Cons s ss)
  from Cons.prems obtain tot' a' b' where "focus_step env sw slw (tot, a, b) s = Inr (tot', a', b')"
    using focus_step_returns[of s env sw slw tot a b] by auto
  then show ?case using Cons.IH[of tot' a' b'] Cons.prems by simp
qed

section \<open>The example, evaluated\<close>

lemma example_this_week: "start_of_this_week example_today = Inr 63839707200000000"
  by code_simp

lemma example_last_week: "start_of_last_week 63839707200000000 = Inr 63839102400000000"
  by code_simp

lemma example_task_weeks:
  "task_week_loop cpython_utc 63839707200000000 63839102400000000 (0, 0)
     (tasks_completed example_tasks) = Inr (2, 4)"
  by code_simp

lemma example_focus:
  "focus_loop cpython_utc 63839707200000000 63839102400000000 (0, 0, 0) example_sessions
     = Inr (180, 75, 50)"
  by code_simp

lemma example_counts:
  "tasks_completed_count example_tasks = 7" "total_tasks example_tasks = 8"
  "active_tasks_count example_tasks = 1"
  by code_simp+

lemma example_activity_loop:
  "activity_loop cpython_utc [] (tasks_completed example_tasks) = Inr example_activities"
  by code_simp

lemma example_sorted: "take 10 (sort_reverse timestamp example_activities) = example_feed"
  by code_simp

lemma percentage_change_2_4: "percentage_change 2 4 = Inr (- 50)"
  using fl_round_eqI[of "1 / 2" "- 53" 4503599627370496] fl_round_neg[of "1 / 2"]
    fl_round_eqI[of "50" "- 47" 7036874417766400] fl_round_neg[of 50]
    rhe_eqI[of "- 50" "- 50"]
  by (simp add: percentage_change_def int_truediv_def pow2_def)

lemma percentage_change_75_50: "percentage_change 75 50 = Inr 50"
  using fl_round_eqI[of "1 / 2" "- 53" 4503599627370496]
    fl_round_eqI[of "50" "- 47" 7036874417766400]
    rhe_eqI[of "50" "50"]
  by (simp add: percentage_change_def int_truediv_def pow2_def)

lemma task_score_7_8: "task_score 7 8 = Inr (Finite (175 / 2))"
  using fl_round_eqI[of "7 / 8" "- 53" 7881299347898368]
    fl_round_eqI[of "175 / 2" "- 46" 6157265115545600]
  by (simp add: task_score_def int_truediv_def pow2_def)

lemma total_focus_hours_180: "total_focus_hours 180 = Inr (Finite 3)"
  using fl_round_eqI[of "3" "- 51" 6755399441055744] rhe_eqI[of 30 30]
  by (simp add: total_focus_hours_def int_truediv_def pow2_def)

lemma focus_score_3: "focus_score (Finite 3) = Finite 15"
  using fl_round_eqI[of "15" "- 49" 8444249301319680]
  by (simp add: focus_score_def py_min_def pow2_def)

lemma productivity_score_example: "productivity_score (Finite (175 / 2)) (Finite 15) = Inr 66"
  using fl_round_eqI[of "551690954352885725 / 9007199254740992" "- 47" 8620171161763839]
    fl_round_eqI[of "81064793292668925 / 18014398509481984" "- 50" 5066549580791808]
    fl_round_tieI[of "9253489859362815 / 140737488355328" "- 46" 4626744929681408]
    rhe_eqI[of "263 / 4" 66]
  by (simp add: productivity_score_def float_0_7_eq float_0_3_eq pow2_def)

lemma example_dashboard:
  "dashboard cpython_utc example_today example_tasks example_sessions = Inr example_context"
  unfolding dashboard_def
  by (simp add: example_this_week example_last_week example_task_weeks example_focus
      example_counts example_activity_loop example_sorted percentage_change_2_4
      percentage_change_75_50 task_score_7_8 total_focus_hours_180 focus_score_3
      productivity_score_example example_context_def)

section \<open>Counts of the tasks\<close>

text \<open>
  C7. The number of completed tasks is the number of tasks whose completion flag is
  true, the total is the length of the list and the active tasks are the rest: both
  counts are non-negative, they add up to the total, and the task score is between 0
  and 100 whenever there is a task. These are the counts that the dashboard shows.
\<close>

theorem task_counts:
  "tasks_completed_count tasks
     = length (filter (\<lambda>task. truthy (dict_get task ''is_complete'')) tasks)
   \<and> total_tasks tasks = length tasks
   \<and> active_tasks_count tasks = int (total_tasks tasks) - int (tasks_completed_count tasks)
   \<and> active_tasks_count tasks + int (tasks_completed_count tasks) = int (total_tasks tasks)
   \<and> 0 \<le> active_tasks_count tasks
   \<and> tasks_completed_count tasks \<le> total_tasks tasks
   \<and> (0 < total_tasks tasks \<longrightarrow>
        (\<exists>r. task_score (tasks_completed_count tasks) (total_tasks tasks) = Inr (Finite r)
             \<and> 0 \<le> r \<and> r \<le> 100))
   \<and> (\<forall>ctx. dashboard env today tasks focus_sessions = Inr ctx \<longrightarrow>
          ctx_tasks_completed_count ctx = tasks_completed_count tasks
          \<and> ctx_active_tasks_count ctx = active_tasks_count tasks)"
proof -
  have le: "tasks_completed_count tasks \<le> total_tasks tasks"
    by (rule completed_le_total)
  have "\<exists>r. task_score (tasks_completed_count tasks) (total_tasks tasks) = Inr (Finite r)
             \<and> 0 \<le> r \<and> r \<le> 100"
    using task_score_range[OF le] .
  moreover have "\<forall>ctx. dashboard env today tasks focus_sessions = Inr ctx \<longrightarrow>
          ctx_tasks_completed_count ctx = tasks_completed_count tasks
          \<and> ctx_active_tasks_count ctx = active_tasks_count tasks"
    by (auto elim: dashboard_InrD)
  ultimately show ?thesis
    using le by (simp add: tasks_completed_count_def tasks_completed_def total_tasks_def
        active_tasks_count_def)
qed

theorem task_counts_witness:
  "0 < total_tasks example_tasks
   \<and> tasks_completed_count example_tasks = 7
   \<and> total_tasks example_tasks = 8
   \<and> active_tasks_count example_tasks = 1
   \<and> (\<exists>r. task_score (tasks_completed_count example_tasks) (total_tasks example_tasks)
             = Inr (Finite r) \<and> 0 \<le> r \<and> r \<le> 100)
   \<and> dashboard cpython_utc example_today example_tasks example_sessions = Inr example_context
   \<and> ctx_tasks_completed_count example_context = tasks_completed_count example_tasks
   \<and> ctx_active_tasks_count example_context = active_tasks_count example_tasks"
  using task_counts[of example_tasks cpython_utc example_today example_sessions]
    example_dashboard
  by (simp add: example_counts)

section \<open>Parsing of timestamps\<close>

lemma replace_Z_append: "replace_Z (s @ t) = replace_Z s @ replace_Z t"
  by (simp add: replace_Z_def)

lemma parse_timestamp_results:
  "parse_timestamp env PNone = Inr None"
  "parse_timestamp env (PStr []) = Inr None"
  "parse_timestamp env v = Inr (Some u) \<Longrightarrow> in_range u"
  "parse_timestamp env v = Inl e \<Longrightarrow> e \<noteq> ValueError \<and> e \<noteq> TypeError"
  by (auto simp: parse_timestamp_def catch_value_type_def bind_exc_def astimezone_utc_def Let_def
      split: pyval.splits sum.splits if_splits)

text \<open>
  C8. A trailing \<^verbatim>\<open>Z\<close> is read as the offset \<^verbatim>\<open>+00:00\<close>: whatever the parser of the
  platform accepts, \<^verbatim>\<open>parse_timestamp(s + "Z")\<close> and \<^verbatim>\<open>parse_timestamp(s + "+00:00")\<close>
  are the same, and for \<^verbatim>\<open>s = "2024-01-01T00:00:00"\<close> both are midnight of that day in
  UTC. An absent or empty string gives no value, and so does every string that the
  parser rejects as malformed.
\<close>

theorem parse_timestamp_trailing_Z:
  "parse_timestamp env (PStr (s @ ''Z'')) = parse_timestamp env (PStr (s @ ''+00:00''))
   \<and> parse_timestamp cpython_utc (PStr ''2024-01-01T00:00:00Z'')
       = Inr (Some (738885 * DAY))
   \<and> parse_timestamp cpython_utc (PStr ''2024-01-01T00:00:00+00:00'')
       = Inr (Some (738885 * DAY))
   \<and> parse_timestamp env PNone = Inr None
   \<and> parse_timestamp env (PStr []) = Inr None
   \<and> (env_fromisoformat env (replace_Z t) = Inl ValueError \<longrightarrow>
        parse_timestamp env (PStr t) = Inr None)"
proof -
  have "replace_Z (s @ ''Z'') = replace_Z (s @ ''+00:00'')"
    by (simp add: replace_Z_append) (simp add: replace_Z_def)
  then have "parse_timestamp env (PStr (s @ ''Z'')) = parse_timestamp env (PStr (s @ ''+00:00''))"
    by (simp add: parse_timestamp_def)
  moreover have "parse_timestamp cpython_utc (PStr ''2024-01-01T00:00:00Z'')
       = Inr (Some (738885 * DAY))"
    by code_simp
  moreover have "parse_timestamp cpython_utc (PStr ''2024-01-01T00:00:00+00:00'')
       = Inr (Some (738885 * DAY))"
    by code_simp
  moreover have "env_fromisoformat env (replace_Z t) = Inl ValueError \<longrightarrow>
        parse_timestamp env (PStr t) = Inr None"
    by (simp add: parse_timestamp_def catch_value_type_def)
  ultimately show ?thesis
    by (simp add: parse_timestamp_results)
qed

theorem parse_timestamp_trailing_Z_witness:
  "env_fromisoformat cpython_utc (replace_Z ''last spring'') = Inl ValueError
   \<and> parse_timestamp cpython_utc (PStr ''last spring'') = Inr None
   \<and> parse_timestamp cpython_utc (PStr (''2023-12-30T18:45:10'' @ ''Z''))
       = parse_timestamp cpython_utc (PStr (''2023-12-30T18:45:10'' @ ''+00:00''))
   \<and> parse_timestamp cpython_utc (PStr (''2023-12-30T18:45:10'' @ ''Z''))
       = Inr (Some 63839558710000000)"
proof -
  have h: "env_fromisoformat cpython_utc (replace_Z ''last spring'') = Inl ValueError"
    by code_simp
  have v: "parse_timestamp cpython_utc (PStr (''2023-12-30T18:45:10'' @ ''Z''))
       = Inr (Some 63839558710000000)"
    by code_simp
  show ?thesis
    using parse_timestamp_trailing_Z[of cpython_utc "''2023-12-30T18:45:10''" "''last spring''"]
      h v by simp
qed

text \<open>
  C9. The string \<^verbatim>\<open>0001-01-01T00:00:00+23:59\<close> is well formed: the parser reads it as
  the first midnight of the calendar, 23 hours and 59 minutes ahead of UTC. Its
  conversion to UTC falls before \<^verbatim>\<open>datetime.min\<close> and raises OverflowError, which
  \<^verbatim>\<open>parse_timestamp\<close> does not catch.
\<close>

theorem parse_timestamp_overflow:
  "fromisoformat ''0001-01-01T00:00:00+23:59'' = Inr \<lparr>wall = 0, utcoffset = Some 86340000000\<rparr>
   \<and> astimezone_utc cpython_utc \<lparr>wall = 0, utcoffset = Some 86340000000\<rparr> = Inl OverflowError
   \<and> parse_timestamp cpython_utc (PStr ''0001-01-01T00:00:00+23:59'') = Inl OverflowError"
  by code_simp

section \<open>The windows of the two weeks\<close>

lemma weekday_range: "0 \<le> weekday t \<and> weekday t \<le> 6"
  by (simp add: weekday_def)

lemma start_of_this_week_le:
  assumes "start_of_this_week today = Inr sw"
  shows "sw = today - weekday today * DAY" and "sw \<le> today"
proof -
  show eq: "sw = today - weekday today * DAY"
    using assms by (simp add: start_of_this_week_def minus_days_def Let_def split: if_splits)
  have "0 \<le> weekday today * DAY"
    using weekday_range[of today] by (simp add: DAY_def)
  then show "sw \<le> today" using eq by simp
qed

lemma filter_length_mono:
  "(\<And>x. x \<in> set xs \<Longrightarrow> P x \<Longrightarrow> Q x) \<Longrightarrow> length (filter P xs) \<le> length (filter Q xs)"
  by (induction xs) auto

lemma stamped_mono: "(\<And>t. P t \<Longrightarrow> Q t) \<Longrightarrow> stamped env k P r \<Longrightarrow> stamped env k Q r"
  by (auto simp: stamped_def split: sum.splits option.splits)

text \<open>
  C3. For a clock reading \<open>today\<close> that is a datetime at least seven days after
  \<^verbatim>\<open>datetime.min\<close>, both boundaries exist: this week starts at \<open>today\<close> minus as many
  whole days as its weekday counts from Monday, at the same time of day, and last week
  starts seven days earlier. A completed task whose completion time parses to \<open>t\<close>
  adds one to the count of this week exactly when the start of this week is at or
  before \<open>t\<close>, one to the count of last week exactly when \<open>t\<close> is from the start of
  last week on and before the start of this week, and leaves both counts as they are
  exactly when \<open>t\<close> is before the start of last week. A focus session adds its minutes
  to the sum of the same window, and to the total in every case.
\<close>

theorem week_windows:
  assumes "in_range today" and "7 * DAY \<le> today"
  shows "\<exists>sw slw.
     start_of_this_week today = Inr sw \<and> start_of_last_week sw = Inr slw
     \<and> 0 \<le> weekday today \<and> weekday today \<le> 6
     \<and> sw = today - weekday today * DAY
     \<and> sw mod DAY = today mod DAY
     \<and> slw = sw - 7 * DAY
     \<and> (\<forall>task counts t.
           parse_timestamp env (dict_get task ''completed_at'') = Inr (Some t) \<longrightarrow>
             (task_week_step env sw slw counts task = Inr (fst counts + 1, snd counts))
               = (sw \<le> t)
           \<and> (task_week_step env sw slw counts task = Inr (fst counts, snd counts + 1))
               = (slw \<le> t \<and> t < sw)
           \<and> (task_week_step env sw slw counts task = Inr counts) = (t < slw))
     \<and> (\<forall>s tot a b t.
           parse_timestamp env (dict_get s ''created_at'') = Inr (Some t) \<longrightarrow>
           is_integer (dict_get_default s ''duration_minutes'' (PInt 0)) \<longrightarrow>
             focus_step env sw slw (tot, a, b) s =
               Inr (tot + duration_of s,
                    if sw \<le> t then a + duration_of s else a,
                    if slw \<le> t \<and> t < sw then b + duration_of s else b))"
proof -
  define w where "w = weekday today"
  define sw where "sw = today - w * DAY"
  define slw where "slw = sw - 7 * DAY"
  have w: "0 \<le> w" "w \<le> 6" using weekday_range[of today] by (simp_all add: w_def)
  have today: "0 \<le> today" "today < MAXDT" using assms(1) by (simp_all add: in_range_def)
  have D: "0 < DAY" by (simp add: DAY_def)
  define q where "q = today div DAY"
  have q7: "7 \<le> q"
  proof -
    have "7 * DAY div DAY \<le> today div DAY" using assms(2) by (rule zdiv_mono1) (rule D)
    then show ?thesis using D by (simp add: q_def)
  qed
  have wq: "w = q mod 7" by (simp add: w_def weekday_def q_def)
  have "today = q * DAY + today mod DAY" by (simp add: q_def)
  moreover have "0 \<le> today mod DAY" using D by simp
  ultimately have "q * DAY \<le> today" by linarith
  moreover have "7 \<le> q - q mod 7" using q7 by presburger
  then have "7 * DAY \<le> (q - q mod 7) * DAY" using D by (simp add: mult_right_mono)
  ultimately have sw7: "7 * DAY \<le> sw"
    by (simp add: sw_def wq left_diff_distrib)
  have swle: "sw \<le> today" using w D by (simp add: sw_def)
  have r1: "in_range sw" using sw7 swle today D by (simp add: in_range_def)
  have r2: "in_range slw" using sw7 swle today D by (simp add: in_range_def slw_def)
  have s1: "start_of_this_week today = Inr sw"
    using r1 by (simp add: start_of_this_week_def minus_days_def sw_def w_def)
  have s2: "start_of_last_week sw = Inr slw"
    using r2 by (simp add: start_of_last_week_def minus_days_def slw_def)
  have m: "sw mod DAY = today mod DAY"
    by (simp add: sw_def mod_diff_eq[symmetric])
  have slw_less: "slw < sw" using D by (simp add: slw_def)
  have t: "\<forall>task counts t.
           parse_timestamp env (dict_get task ''completed_at'') = Inr (Some t) \<longrightarrow>
             (task_week_step env sw slw counts task = Inr (fst counts + 1, snd counts))
               = (sw \<le> t)
           \<and> (task_week_step env sw slw counts task = Inr (fst counts, snd counts + 1))
               = (slw \<le> t \<and> t < sw)
           \<and> (task_week_step env sw slw counts task = Inr counts) = (t < slw)"
    using slw_less by (auto simp: task_week_step_cases prod_eq_iff)
  have f: "\<forall>s tot a b t.
           parse_timestamp env (dict_get s ''created_at'') = Inr (Some t) \<longrightarrow>
           is_integer (dict_get_default s ''duration_minutes'' (PInt 0)) \<longrightarrow>
             focus_step env sw slw (tot, a, b) s =
               Inr (tot + duration_of s,
                    if sw \<le> t then a + duration_of s else a,
                    if slw \<le> t \<and> t < sw then b + duration_of s else b)"
    by (auto simp: focus_step_cases)
  show ?thesis
    using s1 s2 w m t f by (intro exI[of _ sw] exI[of _ slw]) (simp add: sw_def slw_def w_def)
qed

theorem week_windows_witness:
  "in_range example_today \<and> 7 * DAY \<le> example_today \<and> weekday example_today = 3
   \<and> start_of_this_week example_today = Inr 63839707200000000
   \<and> start_of_last_week 63839707200000000 = Inr 63839102400000000
   \<and> 63839707200000000 = example_today - 3 * DAY
   \<and> 63839707200000000 mod DAY = example_today mod DAY
   \<and> parse_timestamp cpython_utc
        (dict_get (map_of [(''title'', PStr ''call Ada''), (''is_complete'', PBool True),
                           (''completed_at'', PStr ''2024-01-01T08:00:00+00:00'')])
           ''completed_at'') = Inr (Some 63839692800000000)
   \<and> task_week_step cpython_utc 63839707200000000 63839102400000000 (0, 0)
        (map_of [(''title'', PStr ''call Ada''), (''is_complete'', PBool True),
                 (''completed_at'', PStr ''2024-01-01T08:00:00+00:00'')]) = Inr (0, 1)"
proof -
  let ?task = "map_of [(''title'', PStr ''call Ada''), (''is_complete'', PBool True),
                 (''completed_at'', PStr ''2024-01-01T08:00:00+00:00'')]"
  have r: "in_range example_today" by code_simp
  have d: "7 * DAY \<le> example_today" by code_simp
  have w: "weekday example_today = 3" by code_simp
  have p: "parse_timestamp cpython_utc (dict_get ?task ''completed_at'')
             = Inr (Some 63839692800000000)"
    by code_simp
  from week_windows[OF r d, of cpython_utc] obtain sw slw where
    sw: "start_of_this_week example_today = Inr sw"
    and slw: "start_of_last_week sw = Inr slw"
    and eq: "sw = example_today - weekday example_today * DAY"
    and md: "sw mod DAY = example_today mod DAY"
    and step: "\<forall>task counts t.
           parse_timestamp cpython_utc (dict_get task ''completed_at'') = Inr (Some t) \<longrightarrow>
             (task_week_step cpython_utc sw slw counts task = Inr (fst counts + 1, snd counts))
               = (sw \<le> t)
           \<and> (task_week_step cpython_utc sw slw counts task = Inr (fst counts, snd counts + 1))
               = (slw \<le> t \<and> t < sw)
           \<and> (task_week_step cpython_utc sw slw counts task = Inr counts) = (t < slw)"
    by blast
  have sw_eq: "sw = 63839707200000000" using sw example_this_week by simp
  have slw_eq: "slw = 63839102400000000" using slw example_last_week sw_eq by simp
  have "(task_week_step cpython_utc sw slw (0, 0) ?task = Inr (fst (0, 0), snd (0, 0) + 1))
          = (slw \<le> 63839692800000000 \<and> 63839692800000000 < sw)"
    using step[rule_format, OF p, of "(0, 0)"] by simp
  then have "task_week_step cpython_utc 63839707200000000 63839102400000000 (0, 0) ?task
          = Inr (0, 1)"
    by (simp add: sw_eq slw_eq)
  then show ?thesis
    using r d w p eq md example_this_week example_last_week by (simp add: sw_eq)
qed

text \<open>
  C10. The window of this week has no upper end. When a timestamp \<open>t\<close> is later than
  the clock reading, the start of this week is at or before it: a completed task with
  that completion time adds one to the count of this week and a focus session created
  then adds its minutes to the sum of this week. So the count of this week is at
  least the number of completed tasks dated in the future, and every session dated in
  the future is among those whose minutes make the sum of this week.
\<close>

theorem future_dated_rows:
  assumes "start_of_this_week today = Inr sw" and "today < t"
  shows "sw \<le> t
     \<and> (parse_timestamp env (dict_get task ''completed_at'') = Inr (Some t) \<longrightarrow>
          task_week_step env sw slw counts task = Inr (fst counts + 1, snd counts))
     \<and> (parse_timestamp env (dict_get s ''created_at'') = Inr (Some t) \<longrightarrow>
        is_integer (dict_get_default s ''duration_minutes'' (PInt 0)) \<longrightarrow>
          focus_step env sw slw (tot, a, b) s = Inr (tot + duration_of s, a + duration_of s, b))
     \<and> (\<forall>counts'. task_week_loop env sw slw (0, 0) ts = Inr counts' \<longrightarrow>
          fst counts' = length (filter (stamped env ''completed_at'' (\<lambda>u. sw \<le> u)) ts)
          \<and> length (filter (stamped env ''completed_at'' (\<lambda>u. today < u)) ts) \<le> fst counts')
     \<and> (\<forall>acc'. focus_loop env sw slw (0, 0, 0) ss = Inr acc' \<longrightarrow>
          fst (snd acc')
            = sum_list (map duration_of (filter (stamped env ''created_at'' (\<lambda>u. sw \<le> u)) ss))
          \<and> set (filter (stamped env ''created_at'' (\<lambda>u. today < u)) ss)
              \<subseteq> set (filter (stamped env ''created_at'' (\<lambda>u. sw \<le> u)) ss))"
proof -
  have le: "sw \<le> today" using start_of_this_week_le(2)[OF assms(1)] .
  then have t: "sw \<le> t" using assms(2) by simp
  have imp: "stamped env k (\<lambda>u. today < u) r \<Longrightarrow> stamped env k (\<lambda>u. sw \<le> u) r" for k r
    by (rule stamped_mono[of "\<lambda>u. today < u"]) (use le in auto)
  have l1: "\<forall>counts'. task_week_loop env sw slw (0, 0) ts = Inr counts' \<longrightarrow>
          fst counts' = length (filter (stamped env ''completed_at'' (\<lambda>u. sw \<le> u)) ts)
          \<and> length (filter (stamped env ''completed_at'' (\<lambda>u. today < u)) ts) \<le> fst counts'"
  proof (intro allI impI)
    fix counts' assume "task_week_loop env sw slw (0, 0) ts = Inr counts'"
    from task_week_loop_counts[OF this]
    have "fst counts' = length (filter (stamped env ''completed_at'' (\<lambda>u. sw \<le> u)) ts)"
      by simp
    moreover have "length (filter (stamped env ''completed_at'' (\<lambda>u. today < u)) ts)
        \<le> length (filter (stamped env ''completed_at'' (\<lambda>u. sw \<le> u)) ts)"
      by (rule filter_length_mono) (rule imp)
    ultimately show "fst counts' = length (filter (stamped env ''completed_at'' (\<lambda>u. sw \<le> u)) ts)
          \<and> length (filter (stamped env ''completed_at'' (\<lambda>u. today < u)) ts) \<le> fst counts'"
      by simp
  qed
  have l2: "\<forall>acc'. focus_loop env sw slw (0, 0, 0) ss = Inr acc' \<longrightarrow>
          fst (snd acc')
            = sum_list (map duration_of (filter (stamped env ''created_at'' (\<lambda>u. sw \<le> u)) ss))
          \<and> set (filter (stamped env ''created_at'' (\<lambda>u. today < u)) ss)
              \<subseteq> set (filter (stamped env ''created_at'' (\<lambda>u. sw \<le> u)) ss)"
    using focus_loop_sums[of env sw slw "(0, 0, 0)" ss] imp by auto
  show ?thesis
    using t l1 l2 by (simp add: task_week_step_cases focus_step_cases)
qed

theorem future_dated_rows_witness:
  "start_of_this_week example_today = Inr 63839707200000000
   \<and> example_today < 63840441600000000
   \<and> parse_timestamp cpython_utc
        (dict_get (map_of [(''title'', PStr ''file taxes''), (''is_complete'', PBool True),
                           (''completed_at'', PStr ''2024-01-10T00:00:00Z'')])
           ''completed_at'') = Inr (Some 63840441600000000)
   \<and> task_week_step cpython_utc 63839707200000000 63839102400000000 (0, 0)
        (map_of [(''title'', PStr ''file taxes''), (''is_complete'', PBool True),
                 (''completed_at'', PStr ''2024-01-10T00:00:00Z'')]) = Inr (1, 0)"
proof -
  let ?task = "map_of [(''title'', PStr ''file taxes''), (''is_complete'', PBool True),
                 (''completed_at'', PStr ''2024-01-10T00:00:00Z'')]"
  have l: "example_today < 63840441600000000" by code_simp
  have p: "parse_timestamp cpython_utc (dict_get ?task ''completed_at'')
             = Inr (Some 63840441600000000)"
    by code_simp
  have "task_week_step cpython_utc 63839707200000000 63839102400000000 (0, 0) ?task
          = Inr (fst (0, 0) + 1, snd (0, 0))"
    using p future_dated_rows[OF example_this_week l,
        of cpython_utc ?task 63839102400000000 "(0, 0)" Map.empty 0 0 0 "[]" "[]"]
    by simp
  then show ?thesis using l p example_this_week by simp
qed

section \<open>Focus minutes and hours\<close>

lemma rhe_error: "\<bar>of_int (round_half_even x) - x\<bar> \<le> 1 / 2"
  using rhe_upper[of x] rhe_lower[of x] by linarith

lemma fl_round_error:
  assumes "pow2 (- 1022) \<le> x" and "x \<le> of_int n" and "n < 2 ^ 53"
  shows "\<exists>r. fl_round x = Finite r \<and> 0 \<le> r \<and> \<bar>r - x\<bar> \<le> x / 2 ^ 53"
proof -
  have xp: "0 < x" using assms(1) pow2_pos[of "- 1022"] by linarith
  obtain r where r: "fl_round x = Finite r" "0 \<le> r"
    using fl_round_le_int[of x n] xp assms(2,3) by auto
  have "pow2 (- 1022) < pow2 (ilog2 x + 1)"
    using assms(1) ilog2_bounds(2)[OF xp] by linarith
  then have "- 1022 < ilog2 x + 1" by (rule pow2_less_imp)
  then have e: "max (ilog2 x - 52) (- 1074) = ilog2 x - 52" by simp
  define e where "e = ilog2 x - 52"
  define m where "m = round_half_even (x / pow2 e)"
  have req: "r = of_int m * pow2 e"
    using r(1) unfolding fl_round_pos[OF xp] e unfolding e_def[symmetric] m_def[symmetric]
    by (simp split: if_splits)
  have "\<bar>of_int m - x / pow2 e\<bar> \<le> 1 / 2" unfolding m_def by (rule rhe_error)
  then have "\<bar>of_int m - x / pow2 e\<bar> * pow2 e \<le> 1 / 2 * pow2 e"
    using pow2_pos[of e] by (simp add: mult_right_mono)
  moreover have "\<bar>of_int m - x / pow2 e\<bar> * pow2 e = \<bar>of_int m * pow2 e - x\<bar>"
  proof -
    have "\<bar>of_int m - x / pow2 e\<bar> * pow2 e = \<bar>(of_int m - x / pow2 e) * pow2 e\<bar>"
      using pow2_pos[of e] by (simp add: abs_mult)
    also have "(of_int m - x / pow2 e) * pow2 e = of_int m * pow2 e - x"
      using pow2_pos[of e] by (simp add: left_diff_distrib)
    finally show ?thesis .
  qed
  ultimately have err: "\<bar>r - x\<bar> \<le> pow2 e / 2" by (simp add: req)
  have "pow2 (ilog2 x) = pow2 52 * pow2 e"
    using pow2_add[of 52 e] by (simp add: e_def)
  then have "pow2 52 * pow2 e \<le> x" using ilog2_bounds(1)[OF xp] by simp
  then have "pow2 e / 2 \<le> x / 2 ^ 53" by (simp add: pow2_def field_simps)
  then show ?thesis using err r by (intro exI[of _ r]) simp
qed

lemma total_focus_hours_nearest:
  assumes "0 \<le> m" and "m < 2 ^ 53"
  shows "\<exists>k h. total_focus_hours m = Inr (Finite h) \<and> fl_round (of_int k / 10) = Finite h
           \<and> \<bar>of_int k / 10 - of_int m / 60\<bar> \<le> (1 / 20 :: rat)"
proof (cases "m = 0")
  case True
  have "round_half_even 0 = 0" using rhe_of_int[of 0] by simp
  then have "total_focus_hours 0 = Inr (Finite 0)"
    by (simp add: total_focus_hours_def int_truediv_def)
  then show ?thesis using True by (intro exI[of _ 0]) simp
next
  case False
  then have m1: "1 \<le> m" using assms(1) by simp
  define x :: rat where "x = of_int m / 60"
  have xm: "x \<le> of_int m" using m1 by (simp add: x_def)
  have "(1 :: rat) / 60 \<le> of_int m / 60" using m1 by simp
  moreover have "pow2 (- 1022) \<le> 1 / 60"
  proof -
    have "pow2 (- 1022) \<le> pow2 (- 6)" by (rule pow2_mono) simp
    also have "\<dots> \<le> 1 / 60" by (simp add: pow2_def)
    finally show ?thesis .
  qed
  ultimately have lo: "pow2 (- 1022) \<le> x" by (simp add: x_def)
  obtain q where q: "fl_round x = Finite q" "0 \<le> q" "\<bar>q - x\<bar> \<le> x / 2 ^ 53"
    using fl_round_error[OF lo xm assms(2)] by auto
  define k where "k = round_half_even (q * 10)"
  have kq: "\<bar>of_int k - q * 10\<bar> \<le> 1 / 2" unfolding k_def by (rule rhe_error)
  have "of_int 0 \<le> q * 10" using q(2) by simp
  then have k0: "0 \<le> k" unfolding k_def by (rule rhe_ge_int)
  have "(of_int m :: rat) < of_int (2 ^ 53)" using assms(2) by (simp only: of_int_less_iff)
  then have "x / 2 ^ 53 < 1 / 60" by (simp add: x_def)
  then have a: "\<bar>q - x\<bar> < 1 / 60" using q(3) by linarith
  have mx: "of_int m = 60 * x" by (simp add: x_def)
  have b: "\<bar>q * 60 - of_int m\<bar> < 1" unfolding mx using a by linarith
  have "(of_int (6 * k - m) :: rat) = 6 * (of_int k - q * 10) + (q * 60 - of_int m)"
    by simp
  then have "\<bar>(of_int (6 * k - m) :: rat)\<bar> < of_int 4"
    using kq b by linarith
  then have "\<bar>6 * k - m\<bar> < 4" by (metis of_int_abs of_int_less_iff)
  then have "\<bar>6 * k - m\<bar> \<le> 3" by simp
  then have c: "\<bar>(of_int (6 * k - m) :: rat)\<bar> \<le> of_int 3"
    by (metis of_int_abs of_int_le_iff)
  have "(of_int k / 10 - of_int m / 60 :: rat) = of_int (6 * k - m) / 60" by simp
  then have "\<bar>of_int k / 10 - of_int m / 60 :: rat\<bar> = \<bar>of_int (6 * k - m)\<bar> / 60"
    by (simp only: abs_divide)
  then have near: "\<bar>of_int k / 10 - of_int m / 60\<bar> \<le> (1 / 20 :: rat)"
    using c by simp
  have "(of_int k / 10 :: rat) \<le> of_int m / 60 + 1 / 20" using near by linarith
  also have "\<dots> \<le> of_int m" using m1 by simp
  finally have "(of_int k / 10 :: rat) \<le> of_int m" .
  moreover have "0 \<le> (of_int k / 10 :: rat)" using k0 by simp
  ultimately obtain h where h: "fl_round (of_int k / 10) = Finite h"
    using fl_round_le_int[of "of_int k / 10" m] assms(2) by auto
  have "total_focus_hours m = Inr (Finite h)"
    using q(1) h by (simp add: total_focus_hours_def int_truediv_def x_def k_def)
  then show ?thesis using h near by blast
qed

text \<open>
  C4. The total of the focus minutes is the sum of the durations of all the sessions,
  whatever their creation times are, a session without the key \<^verbatim>\<open>duration_minutes\<close>
  counting for 0: the loop returns that sum whenever it returns, and it returns when
  every duration is absent or an integer and no creation time makes the parsing
  raise. The hours are the total divided by 60 and rounded to one decimal: for a
  total below \<open>2 ^ 53\<close> they are the float nearest to a decimal \<open>k / 10\<close> that is
  within \<open>1 / 20\<close> of the exact quotient. These are the hours that the dashboard shows.
\<close>

theorem focus_totals:
  "(\<forall>acc'. focus_loop env sw slw (0, 0, 0) ss = Inr acc' \<longrightarrow>
       fst acc' = sum_list (map duration_of ss))
   \<and> ((\<forall>s \<in> set ss. is_integer (dict_get_default s ''duration_minutes'' (PInt 0))
                     \<and> (\<forall>e. parse_timestamp env (dict_get s ''created_at'') \<noteq> Inl e)) \<longrightarrow>
        (\<exists>a b. focus_loop env sw slw (0, 0, 0) ss = Inr (sum_list (map duration_of ss), a, b)))
   \<and> (s ''duration_minutes'' = None \<longrightarrow>
        duration_of s = 0 \<and> is_integer (dict_get_default s ''duration_minutes'' (PInt 0)))
   \<and> (0 \<le> m \<and> m < 2 ^ 53 \<longrightarrow>
        (\<exists>k h. total_focus_hours m = Inr (Finite h) \<and> fl_round (of_int k / 10) = Finite h
               \<and> \<bar>of_int k / 10 - of_int m / 60\<bar> \<le> (1 / 20 :: rat)))
   \<and> (\<forall>ctx. dashboard env today tasks ss = Inr ctx \<longrightarrow>
          total_focus_hours (sum_list (map duration_of ss)) = Inr (ctx_total_focus_hours ctx))"
proof -
  have a: "\<forall>acc'. focus_loop env sw slw (0, 0, 0) ss = Inr acc' \<longrightarrow>
       fst acc' = sum_list (map duration_of ss)"
    using focus_loop_sums[of env sw slw "(0, 0, 0)" ss] by auto
  have b: "(\<forall>s \<in> set ss. is_integer (dict_get_default s ''duration_minutes'' (PInt 0))
                     \<and> (\<forall>e. parse_timestamp env (dict_get s ''created_at'') \<noteq> Inl e)) \<longrightarrow>
        (\<exists>a b. focus_loop env sw slw (0, 0, 0) ss = Inr (sum_list (map duration_of ss), a, b))"
  proof
    assume "\<forall>s \<in> set ss. is_integer (dict_get_default s ''duration_minutes'' (PInt 0))
                     \<and> (\<forall>e. parse_timestamp env (dict_get s ''created_at'') \<noteq> Inl e)"
    from focus_loop_returns[OF this, of sw slw 0 0 0]
    obtain acc' where acc': "focus_loop env sw slw (0, 0, 0) ss = Inr acc'" by blast
    then have "fst acc' = sum_list (map duration_of ss)" using a by blast
    then have "acc' = (sum_list (map duration_of ss), fst (snd acc'), snd (snd acc'))"
      by (simp add: prod_eq_iff)
    then show "\<exists>a b. focus_loop env sw slw (0, 0, 0) ss = Inr (sum_list (map duration_of ss), a, b)"
      using acc' by metis
  qed
  have c: "s ''duration_minutes'' = None \<longrightarrow>
        duration_of s = 0 \<and> is_integer (dict_get_default s ''duration_minutes'' (PInt 0))"
    by (simp add: duration_of_def is_integer_def dict_get_default_def)
  have d: "0 \<le> m \<and> m < 2 ^ 53 \<longrightarrow>
        (\<exists>k h. total_focus_hours m = Inr (Finite h) \<and> fl_round (of_int k / 10) = Finite h
               \<and> \<bar>of_int k / 10 - of_int m / 60\<bar> \<le> (1 / 20 :: rat))"
    using total_focus_hours_nearest[of m] by blast
  have e: "\<forall>ctx. dashboard env today tasks ss = Inr ctx \<longrightarrow>
          total_focus_hours (sum_list (map duration_of ss)) = Inr (ctx_total_focus_hours ctx)"
  proof (intro allI impI)
    fix ctx assume "dashboard env today tasks ss = Inr ctx"
    then obtain this_week last_week acc hours where
      "focus_loop env this_week last_week (0, 0, 0) ss = Inr acc"
      "total_focus_hours (fst acc) = Inr hours" "ctx_total_focus_hours ctx = hours"
      by (rule dashboard_InrD)
    then show "total_focus_hours (sum_list (map duration_of ss)) = Inr (ctx_total_focus_hours ctx)"
      using focus_loop_sums[of env this_week last_week "(0, 0, 0)" ss acc] by simp
  qed
  show ?thesis using a b c d e by blast
qed

theorem focus_totals_witness:
  "list_all (\<lambda>s. is_integer (dict_get_default s ''duration_minutes'' (PInt 0))
                 \<and> (case parse_timestamp cpython_utc (dict_get s ''created_at'') of
                       Inl e \<Rightarrow> False | Inr stamp \<Rightarrow> True)) example_sessions
   \<and> (example_sessions ! 2) ''duration_minutes'' = None
   \<and> parse_timestamp cpython_utc (dict_get (example_sessions ! 3) ''created_at'') = Inr None
   \<and> sum_list (map duration_of example_sessions) = 180
   \<and> (\<exists>a b. focus_loop cpython_utc 63839707200000000 63839102400000000 (0, 0, 0)
               example_sessions = Inr (180, a, b))
   \<and> (0 :: int) \<le> 180 \<and> (180 :: int) < 2 ^ 53
   \<and> dashboard cpython_utc example_today example_tasks example_sessions = Inr example_context
   \<and> total_focus_hours 180 = Inr (ctx_total_focus_hours example_context)
   \<and> (\<exists>k h. total_focus_hours 180 = Inr (Finite h) \<and> fl_round (of_int k / 10) = Finite h
             \<and> \<bar>of_int k / 10 - of_int 180 / 60\<bar> \<le> (1 / 20 :: rat))"
proof -
  have l: "list_all (\<lambda>s. is_integer (dict_get_default s ''duration_minutes'' (PInt 0))
                 \<and> (case parse_timestamp cpython_utc (dict_get s ''created_at'') of
                       Inl e \<Rightarrow> False | Inr stamp \<Rightarrow> True)) example_sessions"
    by code_simp
  then have h: "\<forall>s \<in> set example_sessions.
       is_integer (dict_get_default s ''duration_minutes'' (PInt 0))
       \<and> (\<forall>e. parse_timestamp cpython_utc (dict_get s ''created_at'') \<noteq> Inl e)"
    by (auto simp: list_all_iff split: sum.splits)
  have n: "(example_sessions ! 2) ''duration_minutes'' = None" by code_simp
  have p: "parse_timestamp cpython_utc (dict_get (example_sessions ! 3) ''created_at'') = Inr None"
    by code_simp
  have s: "sum_list (map duration_of example_sessions) = 180" by code_simp
  note t = focus_totals[of cpython_utc 63839707200000000 63839102400000000 example_sessions
      "example_sessions ! 2" 180 example_today example_tasks]
  have "\<exists>a b. focus_loop cpython_utc 63839707200000000 63839102400000000 (0, 0, 0)
               example_sessions = Inr (sum_list (map duration_of example_sessions), a, b)"
    using t h by blast
  moreover have "total_focus_hours (sum_list (map duration_of example_sessions))
      = Inr (ctx_total_focus_hours example_context)"
    using t example_dashboard by blast
  moreover have "\<exists>k h. total_focus_hours 180 = Inr (Finite h) \<and> fl_round (of_int k / 10) = Finite h
             \<and> \<bar>of_int k / 10 - of_int 180 / 60\<bar> \<le> (1 / 20 :: rat)"
    using t by simp
  ultimately show ?thesis
    using l n p example_dashboard by (simp add: s)
qed

section \<open>Percentages of change and the productivity score\<close>

lemma dashboard_changes:
  assumes "dashboard env today tasks ss = Inr ctx"
  obtains sw slw where
    "start_of_this_week today = Inr sw" "start_of_last_week sw = Inr slw"
    "percentage_change
       (int (length (filter (stamped env ''completed_at'' (\<lambda>t. sw \<le> t)) (tasks_completed tasks))))
       (int (length (filter (stamped env ''completed_at'' (\<lambda>t. slw \<le> t \<and> t < sw))
                       (tasks_completed tasks))))
     = Inr (ctx_percentage_change ctx)"
    "percentage_change
       (sum_list (map duration_of (filter (stamped env ''created_at'' (\<lambda>t. sw \<le> t)) ss)))
       (sum_list (map duration_of (filter (stamped env ''created_at'' (\<lambda>t. slw \<le> t \<and> t < sw)) ss)))
     = Inr (ctx_focus_percentage_change ctx)"
proof -
  from assms obtain sw slw counts acc where
    sw: "start_of_this_week today = Inr sw" and slw: "start_of_last_week sw = Inr slw"
    and tl: "task_week_loop env sw slw (0, 0) (tasks_completed tasks) = Inr counts"
    and tp: "percentage_change (int (fst counts)) (int (snd counts)) = Inr (ctx_percentage_change ctx)"
    and fl: "focus_loop env sw slw (0, 0, 0) ss = Inr acc"
    and fp: "percentage_change (fst (snd acc)) (snd (snd acc)) = Inr (ctx_focus_percentage_change ctx)"
    by (rule dashboard_InrD)
  show ?thesis
    using sw slw tp fp task_week_loop_counts[OF tl] focus_loop_sums[OF fl]
    by (intro that[of sw slw]) simp_all
qed

text \<open>
  C2. The percentage of change from last week to this week is 100 when last week
  counts nothing and this week something, 0 when both count nothing, and otherwise the
  rounded value of \<^verbatim>\<open>((this_week - last_week) / last_week) * 100\<close>, with the division,
  the product and the rounding of Python's floats; from 4 last week to 2 this week it
  is -50. The dashboard shows that percentage of the numbers of completed tasks of the
  two windows, and of the sums of the focus minutes of the two windows.
\<close>

theorem percentage_changes:
  "(0 < l \<longrightarrow>
      percentage_change t l =
        bind_exc (int_truediv (t - l) l) (\<lambda>q. py_round (fmul q (Finite 100))))
   \<and> (l \<le> 0 \<and> 0 < t \<longrightarrow> percentage_change t l = Inr 100)
   \<and> (l \<le> 0 \<and> t \<le> 0 \<longrightarrow> percentage_change t l = Inr 0)
   \<and> percentage_change 2 4 = Inr (- 50)
   \<and> (\<forall>ctx. dashboard env today tasks ss = Inr ctx \<longrightarrow>
        (\<exists>sw slw. start_of_this_week today = Inr sw \<and> start_of_last_week sw = Inr slw
           \<and> percentage_change
                (int (length (filter (stamped env ''completed_at'' (\<lambda>u. sw \<le> u))
                                (tasks_completed tasks))))
                (int (length (filter (stamped env ''completed_at'' (\<lambda>u. slw \<le> u \<and> u < sw))
                                (tasks_completed tasks))))
              = Inr (ctx_percentage_change ctx)
           \<and> percentage_change
                (sum_list (map duration_of
                   (filter (stamped env ''created_at'' (\<lambda>u. sw \<le> u)) ss)))
                (sum_list (map duration_of
                   (filter (stamped env ''created_at'' (\<lambda>u. slw \<le> u \<and> u < sw)) ss)))
              = Inr (ctx_focus_percentage_change ctx)))"
proof -
  have "\<forall>ctx. dashboard env today tasks ss = Inr ctx \<longrightarrow>
        (\<exists>sw slw. start_of_this_week today = Inr sw \<and> start_of_last_week sw = Inr slw
           \<and> percentage_change
                (int (length (filter (stamped env ''completed_at'' (\<lambda>u. sw \<le> u))
                                (tasks_completed tasks))))
                (int (length (filter (stamped env ''completed_at'' (\<lambda>u. slw \<le> u \<and> u < sw))
                                (tasks_completed tasks))))
              = Inr (ctx_percentage_change ctx)
           \<and> percentage_change
                (sum_list (map duration_of
                   (filter (stamped env ''created_at'' (\<lambda>u. sw \<le> u)) ss)))
                (sum_list (map duration_of
                   (filter (stamped env ''created_at'' (\<lambda>u. slw \<le> u \<and> u < sw)) ss)))
              = Inr (ctx_focus_percentage_change ctx))"
    by (blast elim: dashboard_changes)
  then show ?thesis
    using percentage_change_2_4 by (simp add: percentage_change_def)
qed

theorem percentage_changes_witness:
  "(0 :: int) < 4
   \<and> percentage_change 2 4
       = bind_exc (int_truediv (2 - 4) 4) (\<lambda>q. py_round (fmul q (Finite 100)))
   \<and> percentage_change 2 4 = Inr (- 50)
   \<and> (0 :: int) \<le> 0 \<and> (0 :: int) < 1 \<and> percentage_change 1 0 = Inr 100
   \<and> percentage_change 0 0 = Inr 0
   \<and> dashboard cpython_utc example_today example_tasks example_sessions = Inr example_context
   \<and> length (filter (stamped cpython_utc ''completed_at'' (\<lambda>u. 63839707200000000 \<le> u))
                (tasks_completed example_tasks)) = 2
   \<and> length (filter (stamped cpython_utc ''completed_at''
                        (\<lambda>u. 63839102400000000 \<le> u \<and> u < 63839707200000000))
                (tasks_completed example_tasks)) = 4
   \<and> ctx_percentage_change example_context = - 50
   \<and> ctx_focus_percentage_change example_context = 50
   \<and> (\<exists>sw slw. start_of_this_week example_today = Inr sw \<and> start_of_last_week sw = Inr slw
           \<and> percentage_change
                (int (length (filter (stamped cpython_utc ''completed_at'' (\<lambda>u. sw \<le> u))
                                (tasks_completed example_tasks))))
                (int (length (filter (stamped cpython_utc ''completed_at''
                                        (\<lambda>u. slw \<le> u \<and> u < sw))
                                (tasks_completed example_tasks))))
              = Inr (ctx_percentage_change example_context)
           \<and> percentage_change
                (sum_list (map duration_of
                   (filter (stamped cpython_utc ''created_at'' (\<lambda>u. sw \<le> u)) example_sessions)))
                (sum_list (map duration_of
                   (filter (stamped cpython_utc ''created_at'' (\<lambda>u. slw \<le> u \<and> u < sw))
                      example_sessions)))
              = Inr (ctx_focus_percentage_change example_context))"
proof -
  note a = percentage_changes[of 4 2 cpython_utc example_today example_tasks example_sessions]
  note b = percentage_changes[of 0 1 cpython_utc example_today example_tasks example_sessions]
  note c = percentage_changes[of 0 0 cpython_utc example_today example_tasks example_sessions]
  have n2: "length (filter (stamped cpython_utc ''completed_at'' (\<lambda>u. 63839707200000000 \<le> u))
                (tasks_completed example_tasks)) = 2"
    by code_simp
  have n4: "length (filter (stamped cpython_utc ''completed_at''
                        (\<lambda>u. 63839102400000000 \<le> u \<and> u < 63839707200000000))
                (tasks_completed example_tasks)) = 4"
    by code_simp
  have "percentage_change 2 4
       = bind_exc (int_truediv (2 - 4) 4) (\<lambda>q. py_round (fmul q (Finite 100)))"
    by (rule a[THEN conjunct1, THEN mp]) simp
  moreover have "percentage_change 2 4 = Inr (- 50)"
    by (rule a[THEN conjunct2, THEN conjunct2, THEN conjunct2, THEN conjunct1])
  moreover have "percentage_change 1 0 = Inr 100"
    by (rule b[THEN conjunct2, THEN conjunct1, THEN mp]) simp
  moreover have "percentage_change 0 0 = Inr 0"
    by (rule c[THEN conjunct2, THEN conjunct2, THEN conjunct1, THEN mp]) simp
  moreover have "\<exists>sw slw. start_of_this_week example_today = Inr sw \<and> start_of_last_week sw = Inr slw
           \<and> percentage_change
                (int (length (filter (stamped cpython_utc ''completed_at'' (\<lambda>u. sw \<le> u))
                                (tasks_completed example_tasks))))
                (int (length (filter (stamped cpython_utc ''completed_at''
                                        (\<lambda>u. slw \<le> u \<and> u < sw))
                                (tasks_completed example_tasks))))
              = Inr (ctx_percentage_change example_context)
           \<and> percentage_change
                (sum_list (map duration_of
                   (filter (stamped cpython_utc ''created_at'' (\<lambda>u. sw \<le> u)) example_sessions)))
                (sum_list (map duration_of
                   (filter (stamped cpython_utc ''created_at'' (\<lambda>u. slw \<le> u \<and> u < sw))
                      example_sessions)))
              = Inr (ctx_focus_percentage_change example_context)"
    using a example_dashboard by blast
  ultimately show ?thesis
    using example_dashboard n2 n4 by (simp add: example_context_def)
qed

text \<open>
  The division and the product round to the nearest float, so the percentage is not
  always the rounding of the exact quotient: from 40 to 63 the exact change is 57.5
  per cent, the floats give 57.49999999999999 and the percentage is 57.
\<close>

lemma percentage_change_40_63: "percentage_change 63 40 = Inr 57"
  using fl_round_eqI[of "23 / 40" "- 53" 5179139571476070]
    fl_round_eqI[of "64739244643450875 / 1125899906842624" "- 47" 8092405580431359]
    rhe_eqI[of "8092405580431359 / 140737488355328" 57]
  by (simp add: percentage_change_def int_truediv_def pow2_def)

lemma total_focus_hours_nonneg:
  assumes "0 \<le> m" and "total_focus_hours m = Inr hours"
  shows "\<exists>h. hours = Finite h \<and> 0 \<le> h"
proof -
  have "0 \<le> (of_int m / of_int 60 :: rat)" using assms(1) by simp
  then consider "fl_round (of_int m / of_int 60) = PosInf"
    | q where "fl_round (of_int m / of_int 60) = Finite q" "0 \<le> q"
    using fl_round_nonneg by blast
  then show ?thesis
  proof cases
    case 1
    then show ?thesis using assms(2) by (simp add: total_focus_hours_def int_truediv_def)
  next
    case 2
    have "of_int 0 \<le> q * 10" using 2(2) by simp
    then have "0 \<le> round_half_even (q * 10)" by (rule rhe_ge_int)
    then have "0 \<le> (of_int (round_half_even (q * 10)) / 10 :: rat)" by simp
    then consider "fl_round (of_int (round_half_even (q * 10)) / 10) = PosInf"
      | h where "fl_round (of_int (round_half_even (q * 10)) / 10) = Finite h" "0 \<le> h"
      using fl_round_nonneg by blast
    then show ?thesis
      using assms(2) 2(1) by cases (auto simp: total_focus_hours_def int_truediv_def)
  qed
qed

text \<open>
  C1. The task score is the quotient of the completed tasks by all the tasks, times
  100, or 0 when there is no task; the focus score is five times the focus hours, at
  most 100; the productivity score is the rounding of 0.7 times the task score plus
  0.3 times the focus score, all in Python's floats. When no duration is negative,
  the productivity score that the dashboard shows is between 0 and 100; and while the
  total of the minutes divided by 60 is within the floats, the computation of the
  three scores returns.
\<close>

theorem productivity_score_bounds:
  "(\<forall>ctx. dashboard env today tasks ss = Inr ctx \<and> (\<forall>s \<in> set ss. 0 \<le> duration_of s) \<longrightarrow>
      0 \<le> ctx_productivity_score ctx \<and> ctx_productivity_score ctx \<le> 100
      \<and> (\<exists>ts h. task_score (tasks_completed_count tasks) (total_tasks tasks) = Inr (Finite ts)
            \<and> total_focus_hours (sum_list (map duration_of ss)) = Inr (Finite h)
            \<and> productivity_score (Finite ts) (focus_score (Finite h))
                = Inr (ctx_productivity_score ctx)))
   \<and> task_score n 0 = Inr (Finite 0)
   \<and> (0 < d \<longrightarrow>
        task_score n d = bind_exc (int_truediv (int n) (int d)) (\<lambda>q. Inr (fmul q (Finite 100))))
   \<and> focus_score hours = py_min (fmul hours (Finite 5)) (Finite 100)
   \<and> productivity_score x y = py_round (fadd (fmul x float_0_7) (fmul y float_0_3))
   \<and> ((\<forall>s \<in> set ss. 0 \<le> duration_of s)
        \<and> of_int (sum_list (map duration_of ss)) \<le> 60 * float_max \<longrightarrow>
        (\<exists>ts h score.
           task_score (tasks_completed_count tasks) (total_tasks tasks) = Inr (Finite ts)
           \<and> total_focus_hours (sum_list (map duration_of ss)) = Inr (Finite h)
           \<and> productivity_score (Finite ts) (focus_score (Finite h)) = Inr score
           \<and> 0 \<le> score \<and> score \<le> 100))"
proof -
  obtain ts where ts: "task_score (tasks_completed_count tasks) (total_tasks tasks) = Inr (Finite ts)"
      "0 \<le> ts" "ts \<le> 100"
    using task_score_range[OF completed_le_total[of tasks]] by blast
  have score: "\<exists>f s. focus_score (Finite h) = Finite f
       \<and> productivity_score (Finite ts) (Finite f) = Inr s \<and> 0 \<le> s \<and> s \<le> 100"
    if h0: "0 \<le> h" for h
  proof -
    obtain f where f: "focus_score (Finite h) = Finite f" "0 \<le> f" "f \<le> 100"
      using focus_score_range[OF h0] by blast
    then show ?thesis using productivity_score_range[OF ts(2,3) f(2,3)] by blast
  qed
  have a: "\<forall>ctx. dashboard env today tasks ss = Inr ctx \<and> (\<forall>s \<in> set ss. 0 \<le> duration_of s) \<longrightarrow>
      0 \<le> ctx_productivity_score ctx \<and> ctx_productivity_score ctx \<le> 100
      \<and> (\<exists>ts h. task_score (tasks_completed_count tasks) (total_tasks tasks) = Inr (Finite ts)
            \<and> total_focus_hours (sum_list (map duration_of ss)) = Inr (Finite h)
            \<and> productivity_score (Finite ts) (focus_score (Finite h))
                = Inr (ctx_productivity_score ctx))"
  proof (intro allI impI, elim conjE)
    fix ctx
    assume d: "dashboard env today tasks ss = Inr ctx" and nn: "\<forall>s \<in> set ss. 0 \<le> duration_of s"
    from d obtain this_week last_week acc hours tscore where
      fl: "focus_loop env this_week last_week (0, 0, 0) ss = Inr acc"
      and th: "total_focus_hours (fst acc) = Inr hours"
      and tsc: "task_score (tasks_completed_count tasks) (total_tasks tasks) = Inr tscore"
      and ps: "productivity_score tscore (focus_score hours) = Inr (ctx_productivity_score ctx)"
      by (rule dashboard_InrD)
    have m: "fst acc = sum_list (map duration_of ss)"
      using focus_loop_sums[OF fl] by simp
    have "0 \<le> sum_list (map duration_of ss)"
      using nn by (intro sum_list_nonneg) auto
    then obtain h where h: "hours = Finite h" "0 \<le> h"
      using total_focus_hours_nonneg[of "fst acc" hours] th m by auto
    obtain f s where f: "focus_score (Finite h) = Finite f"
      and s: "productivity_score (Finite ts) (Finite f) = Inr s" "0 \<le> s" "s \<le> 100"
      using score[OF h(2)] by blast
    have t: "tscore = Finite ts" using tsc ts(1) by simp
    have "ctx_productivity_score ctx = s" using ps s(1) by (simp add: t h(1) f)
    then show "0 \<le> ctx_productivity_score ctx \<and> ctx_productivity_score ctx \<le> 100
      \<and> (\<exists>ts h. task_score (tasks_completed_count tasks) (total_tasks tasks) = Inr (Finite ts)
            \<and> total_focus_hours (sum_list (map duration_of ss)) = Inr (Finite h)
            \<and> productivity_score (Finite ts) (focus_score (Finite h))
                = Inr (ctx_productivity_score ctx))"
      using s ts(1) th ps by (auto simp: m t h(1))
  qed
  have b: "(\<forall>s \<in> set ss. 0 \<le> duration_of s)
        \<and> of_int (sum_list (map duration_of ss)) \<le> 60 * float_max \<longrightarrow>
        (\<exists>ts h score.
           task_score (tasks_completed_count tasks) (total_tasks tasks) = Inr (Finite ts)
           \<and> total_focus_hours (sum_list (map duration_of ss)) = Inr (Finite h)
           \<and> productivity_score (Finite ts) (focus_score (Finite h)) = Inr score
           \<and> 0 \<le> score \<and> score \<le> 100)"
  proof (intro impI, elim conjE)
    assume nn: "\<forall>s \<in> set ss. 0 \<le> duration_of s"
      and le: "of_int (sum_list (map duration_of ss)) \<le> 60 * float_max"
    have "0 \<le> sum_list (map duration_of ss)"
      using nn by (intro sum_list_nonneg) auto
    then obtain h where h: "total_focus_hours (sum_list (map duration_of ss)) = Inr (Finite h)"
        "0 \<le> h"
      using total_focus_hours_range[OF _ le] by blast
    obtain f s where "focus_score (Finite h) = Finite f"
      "productivity_score (Finite ts) (Finite f) = Inr s" "0 \<le> s" "s \<le> 100"
      using score[OF h(2)] by blast
    then show "\<exists>ts h score.
           task_score (tasks_completed_count tasks) (total_tasks tasks) = Inr (Finite ts)
           \<and> total_focus_hours (sum_list (map duration_of ss)) = Inr (Finite h)
           \<and> productivity_score (Finite ts) (focus_score (Finite h)) = Inr score
           \<and> 0 \<le> score \<and> score \<le> 100"
      using ts(1) h(1) by auto
  qed
  show ?thesis
    using a b by (simp add: task_score_def focus_score_def productivity_score_def)
qed

theorem productivity_score_bounds_witness:
  "dashboard cpython_utc example_today example_tasks example_sessions = Inr example_context
   \<and> list_all (\<lambda>s. 0 \<le> duration_of s) example_sessions
   \<and> sum_list (map duration_of example_sessions) = 180
   \<and> (of_int 180 :: rat) \<le> 60 * float_max
   \<and> ctx_productivity_score example_context = 66
   \<and> 0 \<le> ctx_productivity_score example_context
   \<and> ctx_productivity_score example_context \<le> 100
   \<and> task_score (tasks_completed_count example_tasks) (total_tasks example_tasks)
       = Inr (Finite (175 / 2))
   \<and> total_focus_hours (sum_list (map duration_of example_sessions)) = Inr (Finite 3)
   \<and> focus_score (Finite 3) = Finite 15
   \<and> productivity_score (Finite (175 / 2)) (focus_score (Finite 3))
       = Inr (ctx_productivity_score example_context)"
proof -
  have l: "list_all (\<lambda>s. 0 \<le> duration_of s) example_sessions" by code_simp
  then have nn: "\<forall>s \<in> set example_sessions. 0 \<le> duration_of s" by (simp add: list_all_iff)
  have s: "sum_list (map duration_of example_sessions) = 180" by code_simp
  have m: "(of_int 180 :: rat) \<le> 60 * float_max" by (simp add: float_max_def)
  have "0 \<le> ctx_productivity_score example_context
      \<and> ctx_productivity_score example_context \<le> 100"
    using productivity_score_bounds[of cpython_utc example_today example_tasks example_sessions]
      example_dashboard nn by blast
  then show ?thesis
    using l m example_dashboard
    by (simp add: s example_counts task_score_7_8 total_focus_hours_180 focus_score_3
        productivity_score_example example_context_def)
qed

end
